theory Spec2Isabelle
  imports Complex_Main "HOL-Library.Word"
begin

section \<open>JavaScript strings\<close>

text \<open>
  A JavaScript string is a sequence of UTF-16 code units. The literals of the source are
  ASCII, written here as HOL string literals and converted with \<open>js\<close>.
\<close>

type_synonym code_unit = "16 word"
type_synonym jsstring = "code_unit list"

definition js :: "string \<Rightarrow> jsstring" where
  "js s = map of_char s"

definition newline :: code_unit where
  "newline = 0x0A"

text \<open>
  \<open>String.prototype.trim\<close> strips the code units of the ECMAScript productions
  WhiteSpace (TAB, VT, FF, SP, NBSP, ZWNBSP and the Unicode space separators) and
  LineTerminator (LF, CR, LS, PS) from both ends.
\<close>

definition isWhiteSpace :: "code_unit \<Rightarrow> bool" where
  "isWhiteSpace c \<longleftrightarrow>
     c = 0x09 \<or> c = 0x0A \<or> c = 0x0B \<or> c = 0x0C \<or> c = 0x0D \<or> c = 0x20 \<or> c = 0xA0 \<or>
     c = 0x1680 \<or> (0x2000 \<le> c \<and> c \<le> 0x200A) \<or> c = 0x2028 \<or> c = 0x2029 \<or>
     c = 0x202F \<or> c = 0x205F \<or> c = 0x3000 \<or> c = 0xFEFF"

definition trimStart :: "jsstring \<Rightarrow> jsstring" where
  "trimStart s = dropWhile isWhiteSpace s"

definition trimEnd :: "jsstring \<Rightarrow> jsstring" where
  "trimEnd s = rev (dropWhile isWhiteSpace (rev s))"

definition trim :: "jsstring \<Rightarrow> jsstring" where
  "trim s = trimEnd (trimStart s)"

definition startsWith :: "jsstring \<Rightarrow> jsstring \<Rightarrow> bool" where
  "startsWith s p \<longleftrightarrow> take (length p) s = p"

definition substring :: "jsstring \<Rightarrow> nat \<Rightarrow> jsstring" where
  "substring s n = drop n s"

text \<open>\<open>s.split('\n')\<close>: the pieces between the line feeds; \<open>acc\<close> is the piece being read.\<close>

fun split_newline :: "jsstring \<Rightarrow> jsstring \<Rightarrow> jsstring list" where
  "split_newline acc [] = [acc]"
| "split_newline acc (c # cs) =
     (if c = newline then acc # split_newline [] cs else split_newline (acc @ [c]) cs)"

section \<open>The quiz tab: \<open>parseQuizResponse\<close>\<close>

text \<open>
  The regular expression \<open>/Q\d*:/\<close> matched at the start of a string: the letter Q, the
  longest run of ASCII digits, a colon. The result is the text after the match. (Giving
  back digits cannot help the match: a digit would have to be a colon.)
\<close>

definition isDigit :: "code_unit \<Rightarrow> bool" where
  "isDigit c \<longleftrightarrow> 0x30 \<le> c \<and> c \<le> 0x39"

definition match_marker :: "jsstring \<Rightarrow> jsstring option" where
  "match_marker s =
     (case s of
        [] \<Rightarrow> None
      | c # cs \<Rightarrow>
          if c = 0x51 then
            (case dropWhile isDigit cs of
               [] \<Rightarrow> None
             | d # ds \<Rightarrow> if d = 0x3A then Some ds else None)
          else None)"

text \<open>
  \<open>response.split(/Q\d*:/)\<close>: the scan tries the expression at every position from left to
  right; a match closes the current piece and the scan resumes after the match; the text
  after the last match is the last piece (the whole string when nothing matches, also
  for the empty string).
\<close>

function split_marker :: "jsstring \<Rightarrow> jsstring \<Rightarrow> jsstring list" where
  "split_marker acc [] = [acc]"
| "split_marker acc (c # cs) =
     (case match_marker (c # cs) of
        Some rest \<Rightarrow> acc # split_marker [] rest
      | None \<Rightarrow> split_marker (acc @ [c]) cs)"
  by pat_completeness auto
termination
proof (relation "measure (\<lambda>(acc, s). length s)")
  show "wf (measure (\<lambda>(acc, s). length s))" by simp
next
  fix acc :: jsstring and c :: code_unit and cs rest :: jsstring
  assume m: "match_marker (c # cs) = Some rest"
  have "length (dropWhile isDigit cs) \<le> length cs"
    by (rule length_dropWhile_le)
  with m have "length rest < length (c # cs)"
    by (auto simp: match_marker_def split: if_splits list.splits)
  then show "((([], rest)), (acc, c # cs)) \<in> measure (\<lambda>(acc, s). length s)"
    by simp
next
  fix acc :: jsstring and c :: code_unit and cs :: jsstring
  show "((acc @ [c], cs), (acc, c # cs)) \<in> measure (\<lambda>(acc, s). length s)"
    by simp
qed

record QuizQuestion =
  question :: jsstring
  answer :: jsstring
  explanation :: jsstring

text \<open>
  The inner \<open>while\<close> loop after an \<open>A:\<close> line, over the lines that follow it: it stops at
  a line starting with \<open>E:\<close> or \<open>Q:\<close> and appends every other line that does not start
  with \<open>A:\<close>.
\<close>

fun answer_rest :: "jsstring list \<Rightarrow> jsstring \<Rightarrow> jsstring" where
  "answer_rest [] ans = ans"
| "answer_rest (l # ls) ans =
     (if \<not> startsWith l (js ''E:'') \<and> \<not> startsWith l (js ''Q:'') then
        answer_rest ls (if \<not> startsWith l (js ''A:'') then ans @ js '' '' @ trim l else ans)
      else ans)"

text \<open>The inner loop after an \<open>E:\<close> line: it stops at \<open>Q:\<close> or \<open>A:\<close> and skips \<open>E:\<close> lines.\<close>

fun explanation_rest :: "jsstring list \<Rightarrow> jsstring \<Rightarrow> jsstring" where
  "explanation_rest [] expl = expl"
| "explanation_rest (l # ls) expl =
     (if \<not> startsWith l (js ''Q:'') \<and> \<not> startsWith l (js ''A:'') then
        explanation_rest ls
          (if \<not> startsWith l (js ''E:'') then expl @ js '' '' @ trim l else expl)
      else expl)"

text \<open>
  The outer \<open>for\<close> loop over the lines of one part, on the variables
  \<open>(question, answer, explanation)\<close>. The index moves by one line whatever the inner
  loops have read, so the lines an inner loop appended are visited again.
\<close>

fun scan_lines ::
  "jsstring list \<Rightarrow> jsstring \<times> jsstring \<times> jsstring \<Rightarrow> jsstring \<times> jsstring \<times> jsstring" where
  "scan_lines [] vars = vars"
| "scan_lines (line # rest) (quest, ans, expl) =
     (if startsWith line (js ''A:'') then
        scan_lines rest (quest, answer_rest rest (trim (substring line 2)), expl)
      else if startsWith line (js ''E:'') then
        scan_lines rest (quest, ans, explanation_rest rest (trim (substring line 2)))
      else if quest = [] \<and> \<not> startsWith line (js ''A:'') \<and> \<not> startsWith line (js ''E:'') then
        scan_lines rest
          (if quest \<noteq> [] then quest @ js '' '' @ line else line, ans, expl)
      else scan_lines rest (quest, ans, expl))"

definition part_lines :: "jsstring \<Rightarrow> jsstring list" where
  "part_lines part = filter (\<lambda>l. l \<noteq> []) (map trim (split_newline [] part))"

text \<open>One round of the loop over the parts: the part's item is pushed or the list is left as it is.\<close>

definition process_part :: "QuizQuestion list \<Rightarrow> jsstring \<Rightarrow> QuizQuestion list" where
  "process_part questions part =
     (case scan_lines (part_lines part) ([], [], []) of
        (q, a, e) \<Rightarrow>
          if q \<noteq> [] \<and> a \<noteq> [] then questions @ [\<lparr>question = q, answer = a, explanation = e\<rparr>]
          else questions)"

definition parseQuizResponse :: "jsstring \<Rightarrow> QuizQuestion list" where
  "parseQuizResponse response =
     foldl process_part [] (filter (\<lambda>p. trim p \<noteq> []) (split_marker [] response))"


subsection \<open>The prescribed quiz format\<close>

text \<open>
  A block of the format the prompt asks for: the marker \<open>Q\<close>, digits, \<open>:\<close>, the question
  line, an \<open>A:\<close> line and its continuation lines, an \<open>E:\<close> line and its continuation
  lines. Every line ends with a line feed; the last line feed of a completion may be
  missing.
\<close>

record quiz_block =
  marker_digits :: jsstring
  question_line :: jsstring
  answer_line :: jsstring
  answer_more :: "jsstring list"
  explanation_line :: jsstring
  explanation_more :: "jsstring list"

definition text_line :: "jsstring \<Rightarrow> jsstring" where
  "text_line l = l @ [newline]"

definition block_body :: "quiz_block \<Rightarrow> jsstring" where
  "block_body b =
     text_line (question_line b) @
     text_line (js ''A:'' @ answer_line b) @ concat (map text_line (answer_more b)) @
     text_line (js ''E:'' @ explanation_line b) @ concat (map text_line (explanation_more b))"

definition render_block :: "quiz_block \<Rightarrow> jsstring" where
  "render_block b = js ''Q'' @ marker_digits b @ js '':'' @ block_body b"

definition render_quiz :: "quiz_block list \<Rightarrow> jsstring" where
  "render_quiz bs = concat (map render_block bs)"

text \<open>A completion as markers and the texts after them.\<close>

definition render_parts :: "(jsstring \<times> jsstring) list \<Rightarrow> jsstring" where
  "render_parts ps = concat (map (\<lambda>(ds, body). js ''Q'' @ ds @ js '':'' @ body) ps)"

definition completion :: "quiz_block list \<Rightarrow> bool \<Rightarrow> jsstring" where
  "completion bs final_newline =
     (if final_newline then render_quiz bs else butlast (render_quiz bs))"

text \<open>The item the format stands for: lines are read trimmed and joined with single spaces.\<close>

definition join_lines :: "jsstring \<Rightarrow> jsstring list \<Rightarrow> jsstring" where
  "join_lines first rest = foldl (\<lambda>s l. s @ js '' '' @ trim l) (trim first) rest"

definition expected_item :: "quiz_block \<Rightarrow> QuizQuestion" where
  "expected_item b =
     \<lparr>question = trim (question_line b),
      answer = join_lines (answer_line b) (answer_more b),
      explanation = join_lines (explanation_line b) (explanation_more b)\<rparr>"

text \<open>The shape alone: digits in the marker, and no line feed inside a line.\<close>

definition prescribed_block :: "quiz_block \<Rightarrow> bool" where
  "prescribed_block b \<longleftrightarrow>
     list_all isDigit (marker_digits b) \<and>
     list_all (\<lambda>l. newline \<notin> set l)
       (question_line b # answer_line b # explanation_line b # answer_more b @ explanation_more b)"

text \<open>No match of \<open>/Q\d*:/\<close> starts anywhere in the string.\<close>

fun no_marker :: "jsstring \<Rightarrow> bool" where
  "no_marker [] = True"
| "no_marker (c # cs) = (match_marker (c # cs) = None \<and> no_marker cs)"

text \<open>A line that reads as plain text: not blank, and not itself an \<open>A:\<close> or \<open>E:\<close> line.\<close>

definition plain_line :: "jsstring \<Rightarrow> bool" where
  "plain_line l \<longleftrightarrow>
     trim l \<noteq> [] \<and> \<not> startsWith (trim l) (js ''A:'') \<and> \<not> startsWith (trim l) (js ''E:'')"

definition well_formed_block :: "quiz_block \<Rightarrow> bool" where
  "well_formed_block b \<longleftrightarrow>
     prescribed_block b \<and>
     no_marker (block_body b) \<and>
     plain_line (question_line b) \<and>
     list_all plain_line (answer_more b) \<and>
     list_all plain_line (explanation_more b) \<and>
     (trim (answer_line b) \<noteq> [] \<or> answer_more b \<noteq> [])"



text \<open>
  The raw lines of a block in order, and the lines the inner loops append: those that
  start with none of the three labels.
\<close>

definition block_lines :: "quiz_block \<Rightarrow> jsstring list" where
  "block_lines b =
     question_line b # (js ''A:'' @ answer_line b) # answer_more b @
     (js ''E:'' @ explanation_line b) # explanation_more b"

definition cont :: "jsstring \<Rightarrow> bool" where
  "cont l \<longleftrightarrow>
     \<not> startsWith l (js ''A:'') \<and> \<not> startsWith l (js ''E:'') \<and> \<not> startsWith l (js ''Q:'')"

definition sample_quiz :: "quiz_block list" where
  "sample_quiz =
     [\<lparr>marker_digits = js ''1'', question_line = js '' What is 2+2?'',
       answer_line = js '' 4'', answer_more = [js ''  or four''],
       explanation_line = js '' Because.'', explanation_more = []\<rparr>,
      \<lparr>marker_digits = [], question_line = js '' Name a noble gas.'',
       answer_line = [], answer_more = [js ''Neon''],
       explanation_line = js '' Group 18.'', explanation_more = [js ''Argon too.'']\<rparr>]"


definition faq_block :: quiz_block where
  "faq_block =
     \<lparr>marker_digits = [], question_line = js '' What does FAQ: mean?'',
      answer_line = js '' x'', answer_more = [],
      explanation_line = js '' y'', explanation_more = []\<rparr>"

subsection \<open>Thrown values and the calls to the model runtime\<close>

text \<open>
  A value that reaches a \<open>catch\<close>: an \<open>Error\<close> object with its message, or any other value,
  kept as what \<open>String(...)\<close> makes of it.
\<close>

datatype thrown = ErrorInstance jsstring | OtherValue jsstring

text \<open>\<open>err instanceof Error ? err.message : fallback\<close>\<close>

definition error_message :: "thrown \<Rightarrow> jsstring \<Rightarrow> jsstring" where
  "error_message err fallback = (case err of ErrorInstance m \<Rightarrow> m | OtherValue v \<Rightarrow> fallback)"

record generation_options =
  maxTokens :: nat
  temperature :: real
  systemPrompt :: jsstring

subsection \<open>The quiz tab: \<open>handleGenerate\<close>\<close>

datatype difficulty = easy | medium | hard

fun difficulty_text :: "difficulty \<Rightarrow> jsstring" where
  "difficulty_text easy = js ''easy''"
| "difficulty_text medium = js ''medium''"
| "difficulty_text hard = js ''hard''"

text \<open>
  A number in a template literal: decimal digits (for the natural numbers the select
  offers; JavaScript prints naturals this way below \<open>10^21\<close>).
\<close>

fun number_text :: "nat \<Rightarrow> jsstring" where
  "number_text n =
     (if n < 10 then [of_nat (48 + n)]
      else number_text (n div 10) @ [of_nat (48 + n mod 10)])"

declare number_text.simps [simp del]

definition format_instructions :: jsstring where
  "format_instructions =
     js ''Format each question like this:\<newline>Q: [question here]\<newline>A: [answer here]\<newline>E: [explanation here]''"

definition build_prompt :: "nat \<Rightarrow> difficulty \<Rightarrow> jsstring \<Rightarrow> jsstring" where
  "build_prompt n d t =
     js ''Generate exactly '' @ number_text n @ js '' '' @ difficulty_text d @
     js '' level quiz questions about '' @ [0x22] @ t @ [0x22] @
     js ''. \<newline>\<newline>For each question, provide:\<newline>1. The question\<newline>2. A clear, concise answer\<newline>3. A brief explanation (1-2 sentences)\<newline>\<newline>'' @
     format_instructions @
     js ''\<newline>\<newline>Keep questions educational and test understanding of key concepts.''"

definition quiz_options :: generation_options where
  "quiz_options =
     \<lparr>maxTokens = 1024, temperature = 0.8,
      systemPrompt = js ''You are a helpful educational tutor who creates effective quiz questions to test student understanding. Focus on clarity and educational value.''\<rparr>"

datatype quiz_call = TextGeneration_generateStream jsstring generation_options

record quiz_state =
  topic :: jsstring
  difficulty :: difficulty
  numQuestions :: nat
  quiz_isGenerating :: bool
  questions :: "QuizQuestion list"
  showAnswers :: "nat \<rightharpoonup> bool"
  quiz_error :: "jsstring option"

text \<open>The state while the call is under way: the four updates made before the \<open>try\<close>.\<close>

definition QuizTab_started :: "quiz_state \<Rightarrow> quiz_state" where
  "QuizTab_started s =
     s\<lparr>quiz_isGenerating := True, quiz_error := None, questions := [], showAnswers := Map.empty\<rparr>"

text \<open>
  The \<open>catch\<close> block: it logs to the console and stores the message. The second
  component is the value the block throws on, if any: it throws none.
\<close>

definition QuizTab_catch :: "thrown \<Rightarrow> quiz_state \<Rightarrow> quiz_state \<times> thrown option" where
  "QuizTab_catch err s =
     (s\<lparr>quiz_error := Some (error_message err (js ''Failed to generate quiz''))\<rparr>, None)"

text \<open>
  What the runtime does with the one call is an argument: the tokens the stream yields,
  and the value thrown by the call or by the stream, if any. The result is the state
  when the handler has finished, the calls it made, and the value its promise is rejected
  with, if any (a value that leaves the \<open>try\<close> statement uncaught).
\<close>

definition QuizTab_handleGenerate ::
  "quiz_state \<Rightarrow> jsstring list \<times> thrown option \<Rightarrow>
   quiz_state \<times> quiz_call list \<times> thrown option" where
  "QuizTab_handleGenerate s outcome =
     (if trim (topic s) = [] then
        (s\<lparr>quiz_error := Some (js ''Please enter a topic to generate questions about'')\<rparr>,
         [], None)
      else
        let s1 = QuizTab_started s;
            prompt = build_prompt (numQuestions s) (difficulty s) (topic s);
            (s2, rethrown) =
              (case outcome of
                 (tokens, None) \<Rightarrow>
                   let fullResponse = foldl (@) [] tokens;
                       parsedQuestions = parseQuizResponse fullResponse
                   in (if length parsedQuestions = 0 then
                         s1\<lparr>quiz_error := Some (js ''Failed to parse quiz questions. Please try again.'')\<rparr>
                       else s1\<lparr>questions := parsedQuestions\<rparr>,
                       None)
               | (tokens, Some err) \<Rightarrow> QuizTab_catch err s1)
        in (s2\<lparr>quiz_isGenerating := False\<rparr>,
            [TextGeneration_generateStream prompt quiz_options], rethrown))"

text \<open>\<open>s.includes(p)\<close>: \<open>p\<close> stands at some position of \<open>s\<close>.\<close>

definition js_includes :: "jsstring \<Rightarrow> jsstring \<Rightarrow> bool" where
  "js_includes s p \<longleftrightarrow> list_ex (\<lambda>i. take (length p) (drop i s) = p) [0..<Suc (length s)]"

definition sample_quiz_state :: quiz_state where
  "sample_quiz_state =
     \<lparr>topic = js ''Photosynthesis'', difficulty = medium, numQuestions = 10,
      quiz_isGenerating = False, questions = [], showAnswers = Map.empty, quiz_error = None\<rparr>"

section \<open>The text-to-audio tab\<close>

text \<open>
  JavaScript numbers are IEEE-754 doubles, and the arithmetic on them rounds, overflows
  and has \<open>NaN\<close>. The component only combines the numbers it is given, so the type
  \<open>'n\<close> of numbers and the operations on it are arguments of the model: the number of
  an integer (an array length, an integer literal), the difference \<open>a - b\<close> and the
  quotient \<open>a / b\<close>.
\<close>

record 'n js_arith =
  num_of_nat :: "nat \<Rightarrow> 'n"
  num_minus :: "'n \<Rightarrow> 'n \<Rightarrow> 'n"
  num_divide :: "'n \<Rightarrow> 'n \<Rightarrow> 'n"

record ('f, 'n) synthesis_result =
  result_audioData :: "'f list"
  result_sampleRate :: 'n

record 'n audio_stats =
  duration :: 'n
  generationTime :: 'n
  sampleRate :: 'n

text \<open>The call \<open>TTS.synthesize(text, { speed: 1.0 })\<close>, with the speed as the literal.\<close>

datatype tts_call = TTS_synthesize jsstring real

record 'n tts_state =
  tts_text :: jsstring
  tts_isGenerating :: bool
  tts_error :: "jsstring option"
  audioStats :: "'n audio_stats option"

text \<open>
  The state is the component's \<open>useState\<close> variables. The arguments are the arithmetic,
  the two readings of \<open>performance.now()\<close>, what \<open>TTS.synthesize\<close> gave (a thrown value or
  a result), and the value thrown by the Web Audio playback that follows the statistics,
  if any.
\<close>

definition TextToAudioTab_handleGenerate ::
  "'n js_arith \<Rightarrow> 'n tts_state \<Rightarrow> 'n \<Rightarrow> thrown + ('f, 'n) synthesis_result \<Rightarrow> 'n \<Rightarrow>
   thrown option \<Rightarrow> 'n tts_state \<times> tts_call list" where
  "TextToAudioTab_handleGenerate ops s startTime outcome endTime playback =
     (if trim (tts_text s) = [] then
        (s\<lparr>tts_error := Some (js ''Please enter some text to convert to audio'')\<rparr>, [])
      else
        let s1 = s\<lparr>tts_isGenerating := True, tts_error := None, audioStats := None\<rparr>;
            s2 = (case outcome of
                    Inl err \<Rightarrow>
                      s1\<lparr>tts_error := Some (error_message err (js ''Failed to generate audio''))\<rparr>
                  | Inr result \<Rightarrow>
                      let elapsed = num_minus ops endTime startTime;
                          seconds = num_divide ops
                                      (num_of_nat ops (length (result_audioData result)))
                                      (result_sampleRate result);
                          s3 = s1\<lparr>audioStats :=
                                  Some \<lparr>duration = seconds,
                                        generationTime = num_divide ops elapsed (num_of_nat ops 1000),
                                        sampleRate = result_sampleRate result\<rparr>\<rparr>
                      in (case playback of
                            None \<Rightarrow> s3
                          | Some err \<Rightarrow>
                              s3\<lparr>tts_error :=
                                   Some (error_message err (js ''Failed to generate audio''))\<rparr>))
        in (s2\<lparr>tts_isGenerating := False\<rparr>, [TTS_synthesize (tts_text s) 1.0]))"

text \<open>
  An arithmetic to run the model with: that of the real numbers, which the doubles agree
  with on the values of the sample below (4 / 2 and 500 / 1000).
\<close>

definition exact_arith :: "real js_arith" where
  "exact_arith = \<lparr>num_of_nat = real, num_minus = (\<lambda>a b. a - b), num_divide = (\<lambda>a b. a / b)\<rparr>"

definition sample_tts_state :: "real tts_state" where
  "sample_tts_state =
     \<lparr>tts_text = js ''The cell'', tts_isGenerating = False, tts_error = None, audioStats = None\<rparr>"

definition sample_result :: "(real, real) synthesis_result" where
  "sample_result = \<lparr>result_audioData = replicate 4 0, result_sampleRate = 2\<rparr>"

section \<open>The application shell\<close>

datatype tab = chat | vision | voice | text_to_audio | voice_qa | quiz




section \<open>The voice question-and-answer tab\<close>

datatype PipelineState = idle | listening | transcribing | thinking | speaking

datatype SpeechActivity = Started | Ended | Ongoing

datatype role = user | assistant

record message =
  msg_role :: role
  msg_text :: jsstring

text \<open>The calls the component makes to the voice objects of the runtime, in the order made.\<close>

datatype 'f voice_call =
    AudioCapture_new nat
  | AudioCapture_start
  | AudioCapture_stop
  | VAD_reset
  | VAD_onSpeechActivity
  | VAD_unsubscribe
  | VAD_popSpeechSegment
  | VoicePipeline_processTurn "'f list" generation_options
  | AudioPlayback_play "'f list" real

text \<open>
  The \<open>useState\<close> variables, the refs (by whether they hold an object), the readiness of
  the four model loaders, and the calls made so far. \<open>'f\<close> is the type of an audio sample.
  Two more fields record what leaves the component: the values thrown in its code that no
  \<open>catch\<close> of its own catches, and whether a render of the component has thrown, after
  which React has removed it.
\<close>

record 'f voice_state =
  pipelineState :: PipelineState
  transcript :: jsstring
  response :: jsstring
  voice_error :: "jsstring option"
  conversationHistory :: "message list"
  audioCaptureRef :: bool
  audioPlaybackRef :: bool
  vadUnsubRef :: bool
  pipelineRef :: bool
  allModelsReady :: bool
  calls :: "'f voice_call list"
  uncaught :: "thrown list"
  unmounted :: bool

definition initial_voice_state :: "'f voice_state" where
  "initial_voice_state =
     \<lparr>pipelineState = idle, transcript = [], response = [], voice_error = None,
      conversationHistory = [], audioCaptureRef = False, audioPlaybackRef = False,
      vadUnsubRef = False, pipelineRef = False, allModelsReady = False, calls = [],
      uncaught = [], unmounted = False\<rparr>"

definition turn_options :: generation_options where
  "turn_options =
     \<lparr>maxTokens = 150, temperature = 0.7,
      systemPrompt = js ''You are a helpful study assistant. Answer questions clearly and concisely. Focus on being educational and accurate. Keep responses brief and to the point.''\<rparr>"

definition call :: "'f voice_call \<Rightarrow> 'f voice_state \<Rightarrow> 'f voice_state" where
  "call c s = s\<lparr>calls := calls s @ [c]\<rparr>"

text \<open>
  The effect of \<open>useEffect\<close> when the four loaders have become ready: the cleanup of the
  effect before it, then the pipeline and the playback object are created once.
\<close>

definition effect_cleanup :: "'f voice_state \<Rightarrow> 'f voice_state" where
  "effect_cleanup s =
     (let s1 = (if audioCaptureRef s then call AudioCapture_stop s else s)
      in if vadUnsubRef s1 then call VAD_unsubscribe s1 else s1)"

definition models_ready :: "'f voice_state \<Rightarrow> 'f voice_state" where
  "models_ready s =
     (if allModelsReady s then s
      else
        let s1 = (effect_cleanup s)\<lparr>allModelsReady := True\<rparr>
        in if \<not> pipelineRef s1 then s1\<lparr>pipelineRef := True, audioPlaybackRef := True\<rparr> else s1)"

text \<open>\<open>handleLoadModels\<close>, by how the four \<open>ensure()\<close> calls settle together.\<close>

definition handleLoadModels :: "thrown option \<Rightarrow> 'f voice_state \<Rightarrow> 'f voice_state" where
  "handleLoadModels outcome s =
     (let s1 = s\<lparr>voice_error := None\<rparr>
      in case outcome of
           None \<Rightarrow> s1
         | Some err \<Rightarrow> s1\<lparr>voice_error := Some (error_message err (js ''Failed to load models''))\<rparr>)"

text \<open>
  \<open>startListening\<close>, by how \<open>await mic.start(...)\<close> settles (\<open>None\<close>: it resolves; a thrown
  value: it rejects and the \<open>catch\<close> runs).
\<close>

definition startListening :: "thrown option \<Rightarrow> 'f voice_state \<Rightarrow> 'f voice_state" where
  "startListening outcome s =
     (if \<not> allModelsReady s \<or> pipelineState s \<noteq> idle then s
      else
        let s1 = s\<lparr>voice_error := None, pipelineState := listening, transcript := [],
                   response := []\<rparr>;
            s2 = (call (AudioCapture_new 16000) s1)\<lparr>audioCaptureRef := True\<rparr>;
            s3 = call VAD_reset s2;
            s4 = (call VAD_onSpeechActivity s3)\<lparr>vadUnsubRef := True\<rparr>;
            s5 = call AudioCapture_start s4
        in case outcome of
             None \<Rightarrow> s5
           | Some err \<Rightarrow>
               s5\<lparr>voice_error := Some (error_message err (js ''Failed to start listening'')),
                  pipelineState := idle\<rparr>)"

definition stopListening :: "'f voice_state \<Rightarrow> 'f voice_state" where
  "stopListening s =
     (let s1 = (if audioCaptureRef s then (call AudioCapture_stop s)\<lparr>audioCaptureRef := False\<rparr>
                else s);
          s2 = (if vadUnsubRef s1 then (call VAD_unsubscribe s1)\<lparr>vadUnsubRef := False\<rparr>
                else s1);
          s3 = call VAD_reset s2
      in s3\<lparr>pipelineState := idle\<rparr>)"

text \<open>\<open>processTurn\<close> up to its \<open>await\<close>: the one call to the pipeline, if there is a pipeline.\<close>

definition processTurn :: "'f list \<Rightarrow> 'f voice_state \<Rightarrow> 'f voice_state" where
  "processTurn audioData s =
     (if \<not> pipelineRef s then s
      else call (VoicePipeline_processTurn audioData turn_options) s)"

text \<open>
  The callback given to \<open>VAD.onSpeechActivity\<close>: the activity reported, and the samples of
  the segment \<open>VAD.popSpeechSegment()\<close> returns when it is asked (\<open>None\<close> for \<open>null\<close>).
\<close>

definition onSpeechActivity ::
  "SpeechActivity \<Rightarrow> 'f list option \<Rightarrow> 'f voice_state \<Rightarrow> 'f voice_state" where
  "onSpeechActivity activity segment s =
     (if activity = Ended then
        let s1 = call VAD_popSpeechSegment s
        in case segment of
             None \<Rightarrow> s1
           | Some samples \<Rightarrow>
               if length samples > 1600 then
                 processTurn samples (s1\<lparr>pipelineState := transcribing\<rparr>)
               else s1
      else s)"

text \<open>The callbacks given to \<open>VoicePipeline.processTurn\<close>.\<close>

definition onTranscription :: "jsstring \<Rightarrow> 'f voice_state \<Rightarrow> 'f voice_state" where
  "onTranscription t s = s\<lparr>transcript := t, pipelineState := thinking\<rparr>"

definition onResponseToken :: "jsstring \<Rightarrow> jsstring \<Rightarrow> 'f voice_state \<Rightarrow> 'f voice_state" where
  "onResponseToken token accumulated s = s\<lparr>response := accumulated\<rparr>"

text \<open>
  A \<open>const\<close> that a closure reads: before its declaration has been evaluated it is not
  initialised, and reading it throws a \<open>ReferenceError\<close>.
\<close>

datatype 'a binding = Uninitialised | Initialised 'a

text \<open>
  \<open>onResponseComplete\<close> queues two updates, which React applies together in its next
  render. The update of the history is a function that reads \<open>result\<close>, the \<open>const\<close> that
  the awaited \<open>processTurn\<close> call initialises when it resolves, and the callback runs
  before that. The second argument says how that render finds \<open>result\<close>:
  \<open>Initialised userText\<close> when the call has resolved by then, with \<open>userText\<close> the value
  of \<open>result.transcription || transcript\<close>; \<open>Uninitialised\<close> when it has not: the function
  throws in the render, neither update is committed, and React removes the component.
\<close>

definition onResponseComplete ::
  "jsstring \<Rightarrow> jsstring binding \<Rightarrow> 'f voice_state \<Rightarrow> 'f voice_state" where
  "onResponseComplete t result_read s =
     (case result_read of
        Initialised userText \<Rightarrow>
          s\<lparr>pipelineState := speaking,
            conversationHistory :=
              conversationHistory s @
                [\<lparr>msg_role = user, msg_text = userText\<rparr>, \<lparr>msg_role = assistant, msg_text = t\<rparr>]\<rparr>
      | Uninitialised \<Rightarrow> s\<lparr>unmounted := True\<rparr>)"

text \<open>
  \<open>onSynthesisComplete\<close>, by how \<open>await audioPlaybackRef.current.play(...)\<close> settles: when
  it rejects the callback ends there, with no \<open>catch\<close> around it, and the promise the
  callback has returned to the pipeline is rejected.
\<close>

definition onSynthesisComplete ::
  "'f list \<Rightarrow> real \<Rightarrow> thrown option \<Rightarrow> 'f voice_state \<Rightarrow> 'f voice_state" where
  "onSynthesisComplete audio rate played s =
     (if audioPlaybackRef s then
        let s1 = call (AudioPlayback_play audio rate) s
        in case played of
             None \<Rightarrow> s1\<lparr>pipelineState := idle\<rparr>
           | Some err \<Rightarrow> s1\<lparr>uncaught := uncaught s1 @ [err]\<rparr>
      else s\<lparr>pipelineState := idle\<rparr>)"

text \<open>The \<open>catch\<close> of \<open>processTurn\<close>, when the awaited pipeline call rejects.\<close>

definition processTurn_catch :: "thrown \<Rightarrow> 'f voice_state \<Rightarrow> 'f voice_state" where
  "processTurn_catch err s =
     s\<lparr>voice_error := Some (error_message err (js ''Failed to process voice input'')),
       pipelineState := idle\<rparr>"

definition clearHistory :: "'f voice_state \<Rightarrow> 'f voice_state" where
  "clearHistory s = s\<lparr>conversationHistory := [], transcript := [], response := []\<rparr>"

text \<open>
  Everything that can happen to the component, and the state after a list of events. Once
  the component has been removed there is no state to follow: the run ends there.
\<close>

datatype 'f voice_event =
    ModelsReady
  | HandleLoadModels "thrown option"
  | StartListening "thrown option"
  | StopListening
  | SpeechActivityEvent SpeechActivity "'f list option"
  | OnTranscription jsstring
  | OnResponseToken jsstring jsstring
  | OnResponseComplete jsstring "jsstring binding"
  | OnSynthesisComplete "'f list" real "thrown option"
  | OnStateChange jsstring
  | TurnRejected thrown
  | ClearHistory

fun voice_step :: "'f voice_event \<Rightarrow> 'f voice_state \<Rightarrow> 'f voice_state" where
  "voice_step ModelsReady s = models_ready s"
| "voice_step (HandleLoadModels outcome) s = handleLoadModels outcome s"
| "voice_step (StartListening outcome) s = startListening outcome s"
| "voice_step StopListening s = stopListening s"
| "voice_step (SpeechActivityEvent activity segment) s = onSpeechActivity activity segment s"
| "voice_step (OnTranscription t) s = onTranscription t s"
| "voice_step (OnResponseToken token accumulated) s = onResponseToken token accumulated s"
| "voice_step (OnResponseComplete t result_read) s = onResponseComplete t result_read s"
| "voice_step (OnSynthesisComplete audio rate played) s = onSynthesisComplete audio rate played s"
| "voice_step (OnStateChange st) s = s"
| "voice_step (TurnRejected err) s = processTurn_catch err s"
| "voice_step ClearHistory s = clearHistory s"

definition voice_run :: "'f voice_event list \<Rightarrow> 'f voice_state \<Rightarrow> 'f voice_state" where
  "voice_run events s = foldl (\<lambda>st e. if unmounted st then st else voice_step e st) s events"

text \<open>The steps of the turn-taking order: no change, one step forward, or back to \<open>idle\<close>.\<close>

definition turn_order :: "PipelineState \<Rightarrow> PipelineState \<Rightarrow> bool" where
  "turn_order a b \<longleftrightarrow>
     a = b \<or> b = idle \<or>
     (a = idle \<and> b = listening) \<or> (a = listening \<and> b = transcribing) \<or>
     (a = transcribing \<and> b = thinking) \<or> (a = thinking \<and> b = speaking)"

text \<open>The value of \<open>pipelineState\<close> after each event of a list.\<close>

fun states_along :: "'f voice_event list \<Rightarrow> 'f voice_state \<Rightarrow> PipelineState list" where
  "states_along [] s = []"
| "states_along (e # es) s = pipelineState (voice_step e s) # states_along es (voice_step e s)"

text \<open>
  The events of one turn in the order the pipeline is meant to raise them, with \<open>result\<close>
  initialised when the history is updated.
\<close>

definition turn_events ::
  "'f list \<Rightarrow> jsstring \<Rightarrow> jsstring \<Rightarrow> jsstring \<Rightarrow> 'f list \<Rightarrow> real \<Rightarrow> 'f voice_event list" where
  "turn_events samples t r userText audio rate =
     [StartListening None, SpeechActivityEvent Ended (Some samples), OnTranscription t,
      OnResponseComplete r (Initialised userText), OnSynthesisComplete audio rate None]"

text \<open>The test of the callback on the popped segment.\<close>

definition long_segment :: "'f list option \<Rightarrow> bool" where
  "long_segment segment = (case segment of None \<Rightarrow> False | Some samples \<Rightarrow> length samples > 1600)"

text \<open>
  Runs from the first render: a turn up to the transcription, the same turn up to the
  complete response with \<open>result\<close> initialised in time, and a further utterance.
\<close>

definition turn_start :: "real voice_event list" where
  "turn_start =
     [ModelsReady, StartListening None,
      SpeechActivityEvent Ended (Some (replicate 1601 0)),
      OnTranscription (js ''what is an atom'')]"

definition turn_spoken :: "real voice_event list" where
  "turn_spoken =
     turn_start @
     [OnResponseComplete (js ''The smallest unit of an element.'')
        (Initialised (js ''what is an atom''))]"

definition second_utterance :: "real voice_event" where
  "second_utterance = SpeechActivityEvent Ended (Some (replicate 1601 0))"

text \<open>Roles alternate, starting with the user, in pairs.\<close>

fun alternating :: "message list \<Rightarrow> bool" where
  "alternating [] = True"
| "alternating [m] = False"
| "alternating (m # n # ms) = (msg_role m = user \<and> msg_role n = assistant \<and> alternating ms)"

section \<open>Facts about strings\<close>

lemma trimEnd_Nil [simp]: "trimEnd [] = []" by (simp add: trimEnd_def)
lemma trimStart_Nil [simp]: "trimStart [] = []" by (simp add: trimStart_def)
lemma trim_Nil [simp]: "trim [] = []" by (simp add: trim_def)

lemma trimEnd_eq_Nil: "trimEnd s = [] \<longleftrightarrow> (\<forall>c\<in>set s. isWhiteSpace c)"
  by (simp add: trimEnd_def)

lemma trimStart_eq_Nil: "trimStart s = [] \<longleftrightarrow> (\<forall>c\<in>set s. isWhiteSpace c)"
  by (simp add: trimStart_def)

lemma trimEnd_Cons:
  "trimEnd (x # m) = (if isWhiteSpace x \<and> trimEnd m = [] then [] else x # trimEnd m)"
proof (cases "\<forall>c\<in>set m. isWhiteSpace c")
  case True
  then have a: "dropWhile isWhiteSpace (rev m) = []" by simp
  from True have "dropWhile isWhiteSpace (rev m @ [x]) = dropWhile isWhiteSpace [x]"
    by (intro dropWhile_append2) simp
  with a show ?thesis by (simp add: trimEnd_def)
next
  case False
  then obtain c where c: "c \<in> set (rev m)" "\<not> isWhiteSpace c" by auto
  then have "dropWhile isWhiteSpace (rev m @ [x]) = dropWhile isWhiteSpace (rev m) @ [x]"
    by (rule dropWhile_append1)
  moreover from False have "dropWhile isWhiteSpace (rev m) \<noteq> []" by simp
  ultimately show ?thesis by (simp add: trimEnd_def)
qed

lemma trimStart_Cons: "trimStart (x # m) = (if isWhiteSpace x then trimStart m else x # m)"
  by (simp add: trimStart_def)

lemma set_trimEnd_ws: "(\<forall>c\<in>set (trimEnd s). isWhiteSpace c) \<longleftrightarrow> (\<forall>c\<in>set s. isWhiteSpace c)"
  by (induction s) (auto simp: trimEnd_Cons trimEnd_eq_Nil)

lemma trimStart_trimEnd: "trimStart (trimEnd s) = trimEnd (trimStart s)"
proof (induction s)
  case Nil
  show ?case by (simp add: trimStart_def)
next
  case (Cons x s)
  show ?case
  proof (cases "isWhiteSpace x")
    case True
    show ?thesis
    proof (cases "trimEnd s = []")
      case e: True
      then have "\<forall>c\<in>set s. isWhiteSpace c" by (simp add: trimEnd_eq_Nil)
      then have "trimStart s = []" by (simp add: trimStart_eq_Nil)
      with True e show ?thesis by (simp add: trimEnd_Cons trimStart_Cons)
    next
      case False
      with True Cons show ?thesis by (simp add: trimEnd_Cons trimStart_Cons)
    qed
  next
    case False
    then show ?thesis
      by (simp add: trimEnd_Cons trimStart_Cons)
  qed
qed

lemma trimEnd_idem: "trimEnd (trimEnd s) = trimEnd s"
proof (induction s)
  case Nil
  show ?case by simp
next
  case (Cons x s)
  then show ?case by (simp add: trimEnd_Cons)
qed

lemma trimStart_idem: "trimStart (trimStart s) = trimStart s"
  by (simp add: trimStart_def dropWhile_idem)

lemma trim_trimEnd: "trim (trimEnd s) = trim s"
  by (simp add: trim_def trimStart_trimEnd trimEnd_idem)

lemma trim_idem: "trim (trim s) = trim s"
  by (simp add: trim_def trimStart_trimEnd trimEnd_idem trimStart_idem)

lemma trim_eq_Nil: "trim s = [] \<longleftrightarrow> (\<forall>c\<in>set s. isWhiteSpace c)"
  by (simp add: trim_def trimStart_trimEnd [symmetric] trimStart_eq_Nil set_trimEnd_ws)

lemma trim_label:
  "\<not> isWhiteSpace x \<Longrightarrow> \<not> isWhiteSpace y \<Longrightarrow> trim (x # y # a) = x # y # trimEnd a"
  by (simp add: trim_def trimStart_Cons trimEnd_Cons)

lemma js_A: "js ''A:'' = [0x41, 0x3A]" by (simp add: js_def)
lemma js_E: "js ''E:'' = [0x45, 0x3A]" by (simp add: js_def)
lemma js_Q: "js ''Q:'' = [0x51, 0x3A]" by (simp add: js_def)
lemma js_space: "js '' '' = [0x20]" by (simp add: js_def)

lemma trim_A: "trim (js ''A:'' @ a) = js ''A:'' @ trimEnd a"
  by (simp add: js_A trim_label isWhiteSpace_def)

lemma trim_E: "trim (js ''E:'' @ a) = js ''E:'' @ trimEnd a"
  by (simp add: js_E trim_label isWhiteSpace_def)

lemma trimEnd_decomp: "\<exists>w. t = trimEnd t @ w"
proof -
  have "rev (takeWhile isWhiteSpace (rev t) @ dropWhile isWhiteSpace (rev t)) = rev (rev t)"
    by (simp only: takeWhile_dropWhile_id)
  then have "trimEnd t @ rev (takeWhile isWhiteSpace (rev t)) = t"
    by (simp only: rev_append rev_rev_ident trimEnd_def)
  then have "t = trimEnd t @ rev (takeWhile isWhiteSpace (rev t))" ..
  then show ?thesis ..
qed

lemma trim_decomp: "\<exists>w1 w2. s = w1 @ trim s @ w2"
proof -
  have 1: "s = takeWhile isWhiteSpace s @ trimStart s" by (simp add: trimStart_def)
  obtain w where "trimStart s = trim s @ w"
    using trimEnd_decomp [of "trimStart s"] by (auto simp: trim_def)
  with 1 have "s = takeWhile isWhiteSpace s @ trim s @ w" by simp
  then show ?thesis by blast
qed

section \<open>Facts about splitting\<close>

lemma split_newline_line:
  "newline \<notin> set l \<Longrightarrow> split_newline acc (l @ newline # rest) = (acc @ l) # split_newline [] rest"
  by (induction l arbitrary: acc) auto

lemma split_newline_last: "newline \<notin> set l \<Longrightarrow> split_newline acc l = [acc @ l]"
  by (induction l arbitrary: acc) auto

lemma split_newline_snoc: "split_newline acc (s @ [newline]) = split_newline acc s @ [[]]"
  by (induction s arbitrary: acc) auto

lemma split_newline_lines:
  "list_all (\<lambda>l. newline \<notin> set l) ls \<Longrightarrow>
   split_newline [] (concat (map text_line ls) @ rest) = ls @ split_newline [] rest"
  by (induction ls) (auto simp: text_line_def split_newline_line)

lemma part_lines_snoc: "part_lines (s @ [newline]) = part_lines s"
  by (simp add: part_lines_def split_newline_snoc)

lemma not_digit_colon: "\<not> isDigit 0x3A" by (simp add: isDigit_def)
lemma not_digit_Q: "\<not> isDigit 0x51" by (simp add: isDigit_def)
lemma not_digit_newline: "\<not> isDigit newline" by (simp add: isDigit_def newline_def)

lemma match_marker_start:
  "list_all isDigit ds \<Longrightarrow> match_marker (0x51 # ds @ 0x3A # rest) = Some rest"
proof -
  assume "list_all isDigit ds"
  then have "dropWhile isDigit (ds @ 0x3A # rest) = dropWhile isDigit (0x3A # rest)"
    by (intro dropWhile_append2) (simp add: list_all_iff)
  then show ?thesis by (simp add: match_marker_def not_digit_colon)
qed

lemma match_marker_extend:
  "match_marker s = Some r \<Longrightarrow> match_marker (s @ t) = Some (r @ t)"
proof (cases s)
  case Nil
  assume "match_marker s = Some r"
  with Nil show ?thesis by (simp add: match_marker_def)
next
  case (Cons c cs)
  assume m: "match_marker s = Some r"
  with Cons have c: "c = 0x51" and d: "dropWhile isDigit cs = 0x3A # r"
    by (auto simp: match_marker_def split: if_splits list.splits)
  from d have "dropWhile isDigit cs \<noteq> []" by simp
  then obtain x where "x \<in> set cs" "\<not> isDigit x" by (auto simp: dropWhile_eq_Nil_conv)
  then have "dropWhile isDigit (cs @ t) = dropWhile isDigit cs @ t" by (rule dropWhile_append1)
  with c d Cons show ?thesis by (simp add: match_marker_def)
qed

lemma match_marker_before_Q:
  assumes "match_marker (c # cs) = None"
  shows "match_marker (c # cs @ 0x51 # r) = None"
proof (cases "\<forall>x\<in>set cs. isDigit x")
  case True
  then have "dropWhile isDigit (cs @ 0x51 # r) = dropWhile isDigit (0x51 # r)"
    by (intro dropWhile_append2) simp
  then have eq: "dropWhile isDigit (cs @ 0x51 # r) = 0x51 # r"
    by (simp only: dropWhile.simps not_digit_Q if_False)
  show ?thesis
    unfolding match_marker_def list.case eq by simp
next
  case False
  then obtain x where "x \<in> set cs" "\<not> isDigit x" by auto
  then have eq: "dropWhile isDigit (cs @ 0x51 # r) = dropWhile isDigit cs @ 0x51 # r"
    by (rule dropWhile_append1)
  from False have ne: "dropWhile isDigit cs \<noteq> []" by simp
  then obtain d ds where d: "dropWhile isDigit cs = d # ds" by (cases "dropWhile isDigit cs") auto
  from assms d have "c = 0x51 \<longrightarrow> d \<noteq> 0x3A"
    by (auto simp: match_marker_def split: if_splits)
  then show ?thesis
    unfolding match_marker_def list.case eq d by auto
qed

lemma no_marker_suffix: "no_marker (xs @ ys) \<Longrightarrow> no_marker ys"
  by (induction xs) auto

lemma no_marker_prefix: "no_marker (xs @ ys) \<Longrightarrow> no_marker xs"
proof (induction xs)
  case Nil
  show ?case by simp
next
  case (Cons x xs)
  then have n: "match_marker ((x # xs) @ ys) = None" and r: "no_marker (xs @ ys)" by simp_all
  have "match_marker (x # xs) = None"
  proof (cases "match_marker (x # xs)")
    case None
    then show ?thesis .
  next
    case (Some r)
    from match_marker_extend [OF Some, of ys] n show ?thesis by simp
  qed
  with Cons.IH [OF r] show ?case by simp
qed

lemma split_marker_plain: "no_marker body \<Longrightarrow> split_marker acc body = [acc @ body]"
  by (induction body arbitrary: acc) auto

lemma split_marker_before_Q:
  assumes "no_marker body" and t: "t = 0x51 # r"
  shows "split_marker acc (body @ t) = split_marker (acc @ body) t"
  using assms(1)
proof (induction body arbitrary: acc)
  case Nil
  show ?case by simp
next
  case (Cons c cs)
  then have "match_marker (c # cs @ t) = None"
    by (simp add: t match_marker_before_Q)
  then have "split_marker acc ((c # cs) @ t) = split_marker (acc @ [c]) (cs @ t)"
    by simp
  also have "\<dots> = split_marker ((acc @ [c]) @ cs) t"
    using Cons by simp
  finally show ?case by simp
qed

lemma render_parts_Cons:
  "render_parts ((ds, body) # ps) = 0x51 # ds @ 0x3A # body @ render_parts ps"
  by (simp add: render_parts_def js_def)

lemma render_parts_cases: "render_parts ps = [] \<or> (\<exists>r. render_parts ps = 0x51 # r)"
  by (cases ps) (auto simp: render_parts_Cons, simp add: render_parts_def)

lemma split_marker_render_parts:
  "list_all (\<lambda>(ds, body). list_all isDigit ds \<and> no_marker body) ps \<Longrightarrow> ps \<noteq> [] \<Longrightarrow>
   split_marker acc (render_parts ps) = acc # map snd ps"
proof (induction ps arbitrary: acc)
  case Nil
  then show ?case by simp
next
  case (Cons p ps)
  obtain ds body where p: "p = (ds, body)" by (cases p)
  with Cons.prems have d: "list_all isDigit ds" and b: "no_marker body" by simp_all
  have 1: "split_marker acc (render_parts (p # ps)) = acc # split_marker [] (body @ render_parts ps)"
    using match_marker_start [OF d, of "body @ render_parts ps"]
    by (simp add: p render_parts_Cons)
  show ?case
  proof (cases ps)
    case Nil
    with 1 b show ?thesis by (simp add: p render_parts_def split_marker_plain)
  next
    case c: (Cons q qs)
    then obtain r where r: "render_parts ps = 0x51 # r"
      using render_parts_cases [of ps] by (cases q) (auto simp: render_parts_Cons)
    from Cons.prems c have "split_marker body (render_parts ps) = body # map snd ps"
      by (intro Cons.IH) simp_all
    with 1 split_marker_before_Q [OF b r, of "[]"] show ?thesis by (simp add: p)
  qed
qed

section \<open>Facts about the loops over the lines\<close>

lemma startsWith_A_label [simp]: "startsWith (js ''A:'' @ t) (js ''A:'')"
  by (simp add: startsWith_def js_def)
lemma startsWith_E_label [simp]: "startsWith (js ''E:'' @ t) (js ''E:'')"
  by (simp add: startsWith_def js_def)
lemma startsWith_AE [simp]: "\<not> startsWith (js ''A:'' @ t) (js ''E:'')" "\<not> startsWith (js ''E:'' @ t) (js ''A:'')"
   "\<not> startsWith (js ''A:'' @ t) (js ''Q:'')" "\<not> startsWith (js ''E:'' @ t) (js ''Q:'')"
  by (simp_all add: startsWith_def js_def)

lemma substring_label [simp]: "substring (js ''A:'' @ t) 2 = t" "substring (js ''E:'' @ t) 2 = t"
  by (simp_all add: substring_def js_def)

lemma answer_rest_lines:
  "list_all cont cs \<Longrightarrow> rest = [] \<or> startsWith (hd rest) (js ''E:'') \<Longrightarrow>
   answer_rest (cs @ rest) acc = foldl (\<lambda>s l. s @ js '' '' @ trim l) acc cs"
  by (induction cs arbitrary: acc) (auto simp: cont_def, cases rest, auto)

lemma explanation_rest_lines:
  "list_all cont cs \<Longrightarrow>
   explanation_rest cs acc = foldl (\<lambda>s l. s @ js '' '' @ trim l) acc cs"
  by (induction cs arbitrary: acc) (auto simp: cont_def)

lemma scan_lines_skip:
  "list_all cont cs \<Longrightarrow> q \<noteq> [] \<Longrightarrow> scan_lines (cs @ rest) (q, a, e) = scan_lines rest (q, a, e)"
  by (induction cs) (auto simp: cont_def)

lemma foldl_trim_map:
  "foldl (\<lambda>s l. s @ js '' '' @ trim l) acc (map trim ls) = foldl (\<lambda>s l. s @ js '' '' @ trim l) acc ls"
  by (induction ls arbitrary: acc) (auto simp: trim_idem)

lemma foldl_join_nonempty:
  "foldl (\<lambda>s l. s @ js '' '' @ trim l) acc ls \<noteq> [] \<longleftrightarrow> acc \<noteq> [] \<or> ls \<noteq> []"
proof (induction ls arbitrary: acc)
  case Nil
  show ?case by simp
next
  case (Cons l ls)
  have "js '' '' \<noteq> []" by (simp add: js_def)
  with Cons show ?case by simp
qed

lemma scan_lines_block:
  assumes q: "q \<noteq> []" "\<not> startsWith q (js ''A:'')" "\<not> startsWith q (js ''E:'')"
    and cs: "list_all cont cs" and ds: "list_all cont ds"
  shows "scan_lines (q # (js ''A:'' @ a) # cs @ (js ''E:'' @ e) # ds) ([], [], []) =
         (q, foldl (\<lambda>s l. s @ js '' '' @ trim l) (trim a) cs,
             foldl (\<lambda>s l. s @ js '' '' @ trim l) (trim e) ds)"
proof -
  have 1: "answer_rest (cs @ (js ''E:'' @ e) # ds) (trim a) = foldl (\<lambda>s l. s @ js '' '' @ trim l) (trim a) cs"
    using cs by (intro answer_rest_lines) simp_all
  have 2: "explanation_rest ds (trim e) = foldl (\<lambda>s l. s @ js '' '' @ trim l) (trim e) ds"
    using ds by (rule explanation_rest_lines)
  have 3: "scan_lines ds (q, x, y) = (q, x, y)" for x y
    using scan_lines_skip [OF ds q(1), of "[]" x y] by simp
  show ?thesis
    using q by (simp add: 1 2 3 scan_lines_skip [OF cs q(1)])
qed

lemma block_body_lines: "block_body b = concat (map text_line (block_lines b))"
  by (simp add: block_body_def block_lines_def)

lemma startsWith_2: "startsWith s [x, y] \<longleftrightarrow> (\<exists>r. s = x # y # r)"
proof (cases s)
  case Nil
  then show ?thesis by (simp add: startsWith_def)
next
  case (Cons a t)
  then show ?thesis by (cases t) (auto simp: startsWith_def)
qed

lemma no_marker_no_Q:
  assumes "no_marker (X @ l @ Y)"
  shows "\<not> startsWith (trim l) (js ''Q:'')"
proof
  assume "startsWith (trim l) (js ''Q:'')"
  then obtain r where r: "trim l = 0x51 # 0x3A # r" by (auto simp: js_Q startsWith_2)
  obtain w1 w2 where "l = w1 @ trim l @ w2" using trim_decomp by blast
  with r have "X @ l @ Y = (X @ w1) @ (0x51 # 0x3A # r @ w2 @ Y)" by simp
  with assms have "no_marker (0x51 # 0x3A # r @ w2 @ Y)" by (metis no_marker_suffix)
  then show False by (simp add: match_marker_def not_digit_colon)
qed

lemma in_lines_infix:
  "l \<in> set ls \<Longrightarrow> \<exists>X Y. concat (map text_line ls) = X @ l @ Y"
proof -
  assume "l \<in> set ls"
  then obtain l1 l2 where "ls = l1 @ l # l2" by (auto simp: in_set_conv_decomp)
  then have "concat (map text_line ls) =
      concat (map text_line l1) @ l @ (newline # concat (map text_line l2))"
    by (simp add: text_line_def)
  then show ?thesis by blast
qed

lemma block_cont:
  assumes "no_marker (block_body b)" "l \<in> set (block_lines b)" "plain_line l"
  shows "cont (trim l)"
proof -
  from in_lines_infix [OF assms(2)] obtain X Y where "block_body b = X @ l @ Y"
    by (auto simp: block_body_lines)
  with assms(1) have "\<not> startsWith (trim l) (js ''Q:'')" by (simp add: no_marker_no_Q)
  with assms(3) show ?thesis by (simp add: cont_def plain_line_def)
qed

lemma split_newline_set:
  "l \<in> set (split_newline acc p) \<Longrightarrow> set l \<subseteq> set acc \<union> set p"
proof (induction p arbitrary: acc)
  case Nil
  then show ?case by simp
next
  case (Cons c p)
  show ?case
  proof (cases "c = newline")
    case True
    with Cons.prems have "l = acc \<or> l \<in> set (split_newline [] p)" by simp
    with Cons.IH [of "[]"] show ?thesis by auto
  next
    case False
    with Cons.prems have "l \<in> set (split_newline (acc @ [c]) p)" by simp
    from Cons.IH [OF this] show ?thesis by auto
  qed
qed

lemma part_lines_nonblank: "part_lines p \<noteq> [] \<Longrightarrow> trim p \<noteq> []"
proof -
  assume "part_lines p \<noteq> []"
  then obtain l where l: "l \<in> set (split_newline [] p)" "trim l \<noteq> []"
    by (auto simp: part_lines_def filter_empty_conv)
  then obtain c where "c \<in> set l" "\<not> isWhiteSpace c" by (auto simp: trim_eq_Nil)
  with split_newline_set [OF l(1)] have "c \<in> set p" by auto
  with \<open>\<not> isWhiteSpace c\<close> show ?thesis by (auto simp: trim_eq_Nil)
qed

lemma js_label_ne: "js ''A:'' \<noteq> []" "js ''E:'' \<noteq> []"
  by (simp_all add: js_def)

lemma part_lines_block:
  assumes "well_formed_block b"
  shows "part_lines (block_body b) =
         trim (question_line b) # (js ''A:'' @ trimEnd (answer_line b)) # map trim (answer_more b) @
         (js ''E:'' @ trimEnd (explanation_line b)) # map trim (explanation_more b)"
proof -
  from assms have nl: "list_all (\<lambda>l. newline \<notin> set l) (block_lines b)"
    by (simp add: well_formed_block_def prescribed_block_def block_lines_def js_def newline_def)
  have "split_newline [] (block_body b) = block_lines b @ [[]]"
    using split_newline_lines [OF nl, of "[]"] by (simp add: block_body_lines)
  then have 1: "part_lines (block_body b) = filter (\<lambda>l. l \<noteq> []) (map trim (block_lines b))"
    by (simp add: part_lines_def)
  from assms have "list_all (\<lambda>l. trim l \<noteq> []) (answer_more b)" "list_all (\<lambda>l. trim l \<noteq> []) (explanation_more b)"
    "trim (question_line b) \<noteq> []"
    by (simp_all add: well_formed_block_def plain_line_def list_all_iff)
  then have "filter (\<lambda>l. l \<noteq> []) (map trim (block_lines b)) = map trim (block_lines b)"
    by (simp add: block_lines_def trim_A trim_E js_label_ne list_all_iff)
  with 1 show ?thesis by (simp add: block_lines_def trim_A trim_E)
qed

lemma process_part_block:
  assumes "well_formed_block b"
  shows "process_part qs (block_body b) = qs @ [expected_item b]"
proof -
  let ?q = "trim (question_line b)"
  from assms have nm: "no_marker (block_body b)" by (simp add: well_formed_block_def)
  from assms have q: "?q \<noteq> []" "\<not> startsWith ?q (js ''A:'')" "\<not> startsWith ?q (js ''E:'')"
    by (simp_all add: well_formed_block_def plain_line_def)
  have cs: "list_all cont (map trim (answer_more b))"
    using assms by (auto simp: list_all_iff well_formed_block_def block_lines_def intro!: block_cont [OF nm])
  have ds: "list_all cont (map trim (explanation_more b))"
    using assms by (auto simp: list_all_iff well_formed_block_def block_lines_def intro!: block_cont [OF nm])
  have "scan_lines (part_lines (block_body b)) ([], [], []) =
      (?q, foldl (\<lambda>s l. s @ js '' '' @ trim l) (trim (trimEnd (answer_line b))) (map trim (answer_more b)),
           foldl (\<lambda>s l. s @ js '' '' @ trim l) (trim (trimEnd (explanation_line b)))
             (map trim (explanation_more b)))"
    unfolding part_lines_block [OF assms] by (rule scan_lines_block [OF q cs ds])
  then have s: "scan_lines (part_lines (block_body b)) ([], [], []) =
      (?q, join_lines (answer_line b) (answer_more b), join_lines (explanation_line b) (explanation_more b))"
    by (simp only: trim_trimEnd foldl_trim_map join_lines_def)
  from assms have "join_lines (answer_line b) (answer_more b) \<noteq> []"
    by (auto simp: join_lines_def foldl_join_nonempty well_formed_block_def)
  with q(1) show ?thesis by (simp add: process_part_def s expected_item_def)
qed

lemma foldl_process_blocks:
  "\<forall>b\<in>set bs. well_formed_block b \<Longrightarrow>
   foldl process_part qs (map block_body bs) = qs @ map expected_item bs"
  by (induction bs arbitrary: qs) (simp_all add: process_part_block)

lemma parse_render_parts:
  assumes "list_all (\<lambda>(ds, body). list_all isDigit ds \<and> no_marker body \<and> trim body \<noteq> []) ps"
  shows "parseQuizResponse (render_parts ps) = foldl process_part [] (map snd ps)"
proof (cases "ps = []")
  case True
  then show ?thesis by (simp add: parseQuizResponse_def render_parts_def)
next
  case False
  from assms have "list_all (\<lambda>(ds, body). list_all isDigit ds \<and> no_marker body) ps"
    by (auto simp: list_all_iff)
  from split_marker_render_parts [OF this False, of "[]"]
  have 1: "split_marker [] (render_parts ps) = [] # map snd ps" .
  from assms have "filter (\<lambda>p. trim p \<noteq> []) (map snd ps) = map snd ps"
    by (auto simp: list_all_iff filter_id_conv)
  with 1 show ?thesis by (simp add: parseQuizResponse_def)
qed

lemma lines_end_newline:
  "ls \<noteq> [] \<Longrightarrow> \<exists>X. concat (map text_line ls) = X @ [newline]"
proof (cases ls rule: rev_cases)
  case Nil
  assume "ls \<noteq> []"
  with Nil show ?thesis by simp
next
  case (snoc ys y)
  then have "concat (map text_line ls) = (concat (map text_line ys) @ y) @ [newline]"
    by (simp add: text_line_def)
  then show ?thesis ..
qed

lemma block_body_snoc: "block_body b = butlast (block_body b) @ [newline]"
proof -
  have "block_lines b \<noteq> []" by (simp add: block_lines_def)
  from lines_end_newline [OF this] obtain X where X: "block_body b = X @ [newline]"
    by (auto simp: block_body_lines)
  then have "butlast (block_body b) = X" by simp
  with X show ?thesis by simp
qed

lemma well_formed_part:
  assumes "well_formed_block b"
  shows "list_all isDigit (marker_digits b)" "no_marker (block_body b)" "trim (block_body b) \<noteq> []"
    "no_marker (butlast (block_body b))" "trim (butlast (block_body b)) \<noteq> []"
    "process_part qs (butlast (block_body b)) = qs @ [expected_item b]"
proof -
  show "list_all isDigit (marker_digits b)" and nm: "no_marker (block_body b)"
    using assms by (simp_all add: well_formed_block_def prescribed_block_def)
  have pl: "part_lines (block_body b) \<noteq> []" by (simp add: part_lines_block [OF assms])
  then show "trim (block_body b) \<noteq> []" by (rule part_lines_nonblank)
  from nm have "no_marker (butlast (block_body b) @ [newline])"
    by (simp only: block_body_snoc [symmetric])
  then show "no_marker (butlast (block_body b))"
    by (rule no_marker_prefix)
  have "part_lines (butlast (block_body b) @ [newline]) = part_lines (butlast (block_body b))"
    by (rule part_lines_snoc)
  then have eq: "part_lines (butlast (block_body b)) = part_lines (block_body b)"
    by (simp only: block_body_snoc [symmetric])
  with pl show "trim (butlast (block_body b)) \<noteq> []" by (simp add: part_lines_nonblank)
  have "process_part qs (butlast (block_body b)) = process_part qs (block_body b)"
    by (simp add: process_part_def eq)
  then show "process_part qs (butlast (block_body b)) = qs @ [expected_item b]"
    by (simp add: process_part_block [OF assms])
qed

lemma render_quiz_parts:
  "render_quiz bs = render_parts (map (\<lambda>b. (marker_digits b, block_body b)) bs)"
  by (induction bs) (simp_all add: render_quiz_def render_parts_def render_block_def)

lemma render_parts_append: "render_parts (ps @ qs) = render_parts ps @ render_parts qs"
  by (simp add: render_parts_def)

lemma butlast_render_quiz:
  "butlast (render_quiz (bs @ [b])) =
   render_parts (map (\<lambda>b. (marker_digits b, block_body b)) bs @
     [(marker_digits b, butlast (block_body b))])"
proof -
  let ?pre = "render_parts (map (\<lambda>b. (marker_digits b, block_body b)) bs)"
  let ?m = "js ''Q'' @ marker_digits b @ js '':''"
  have "render_quiz (bs @ [b]) = ?pre @ ?m @ block_body b"
    by (simp add: render_quiz_parts render_parts_append) (simp add: render_parts_def)
  also have "\<dots> = ?pre @ ?m @ (butlast (block_body b) @ [newline])"
    by (simp only: block_body_snoc [symmetric])
  also have "\<dots> = (?pre @ ?m @ butlast (block_body b)) @ [newline]"
    by simp
  finally have "butlast (render_quiz (bs @ [b])) = ?pre @ ?m @ butlast (block_body b)"
    by (simp only: butlast_snoc)
  also have "\<dots> = render_parts (map (\<lambda>b. (marker_digits b, block_body b)) bs @
     [(marker_digits b, butlast (block_body b))])"
    by (simp add: render_parts_append) (simp add: render_parts_def)
  finally show ?thesis .
qed












section \<open>The quiz parser\<close>

text \<open>
  C1, as amended. A completion made of blocks of the prescribed format is parsed into one
  item per block, in the order of the blocks: the question is the trimmed question line,
  the answer is the trimmed text after \<open>A:\<close> with the trimmed continuation lines
  appended after single spaces, and the explanation likewise after \<open>E:\<close>. This holds
  for the well-formed blocks: no further \<open>Q\<close>, digits, \<open>:\<close> marker occurs in the text of
  the block; the question line and every continuation line is not blank and does not
  itself start with \<open>A:\<close> or \<open>E:\<close>; and the answer is not empty. The last line feed of
  the completion may be missing.
\<close>

theorem parseQuizResponse_prescribed_format:
  assumes "\<forall>b\<in>set bs. well_formed_block b"
  shows "parseQuizResponse (completion bs final_newline) = map expected_item bs"
proof (cases "final_newline \<or> bs = []")
  case True
  have "list_all (\<lambda>(ds, body). list_all isDigit ds \<and> no_marker body \<and> trim body \<noteq> [])
          (map (\<lambda>b. (marker_digits b, block_body b)) bs)"
    using assms well_formed_part(1,2,3) by (auto simp: list_all_iff)
  from parse_render_parts [OF this]
  have "parseQuizResponse (render_quiz bs) = foldl process_part [] (map block_body bs)"
    by (simp add: render_quiz_parts comp_def)
  then have "parseQuizResponse (render_quiz bs) = map expected_item bs"
    by (simp add: foldl_process_blocks [OF assms])
  with True show ?thesis by (auto simp: completion_def render_quiz_def)
next
  case False
  then obtain bs' b where bs: "bs = bs' @ [b]" by (cases bs rule: rev_cases) auto
  with assms have wf: "\<forall>b\<in>set bs'. well_formed_block b" and wb: "well_formed_block b" by simp_all
  let ?ps = "map (\<lambda>b. (marker_digits b, block_body b)) bs' @ [(marker_digits b, butlast (block_body b))]"
  have "list_all (\<lambda>(ds, body). list_all isDigit ds \<and> no_marker body \<and> trim body \<noteq> []) ?ps"
    using wf wb well_formed_part(1,2,3,4,5) by (auto simp: list_all_iff)
  from parse_render_parts [OF this]
  have "parseQuizResponse (butlast (render_quiz bs)) =
        process_part (foldl process_part [] (map block_body bs')) (butlast (block_body b))"
    by (simp add: bs butlast_render_quiz comp_def)
  then have "parseQuizResponse (butlast (render_quiz bs)) = map expected_item bs"
    by (simp add: foldl_process_blocks [OF wf] well_formed_part(6) [OF wb] bs)
  with False show ?thesis by (simp add: completion_def)
qed

theorem parseQuizResponse_prescribed_format_witness:
  "list_all well_formed_block sample_quiz \<and>
   completion sample_quiz False =
     js ''Q1: What is 2+2?\<newline>A: 4\<newline>  or four\<newline>E: Because.\<newline>Q: Name a noble gas.\<newline>A:\<newline>Neon\<newline>E: Group 18.\<newline>Argon too.'' \<and>
   parseQuizResponse (completion sample_quiz False) =
     [\<lparr>question = js ''What is 2+2?'', answer = js ''4 or four'', explanation = js ''Because.''\<rparr>,
      \<lparr>question = js ''Name a noble gas.'', answer = js '' Neon'',
       explanation = js ''Group 18. Argon too.''\<rparr>]"
proof -
  have wf: "\<forall>b\<in>set sample_quiz. well_formed_block b"
    by (simp add: sample_quiz_def well_formed_block_def prescribed_block_def block_body_def
        text_line_def plain_line_def trim_def trimStart_def trimEnd_def isWhiteSpace_def
        startsWith_def isDigit_def match_marker_def js_def newline_def)
  have c: "completion sample_quiz False =
     js ''Q1: What is 2+2?\<newline>A: 4\<newline>  or four\<newline>E: Because.\<newline>Q: Name a noble gas.\<newline>A:\<newline>Neon\<newline>E: Group 18.\<newline>Argon too.''"
    by (simp add: completion_def sample_quiz_def render_quiz_def render_block_def block_body_def
        text_line_def js_def newline_def)
  have "map expected_item sample_quiz =
     [\<lparr>question = js ''What is 2+2?'', answer = js ''4 or four'', explanation = js ''Because.''\<rparr>,
      \<lparr>question = js ''Name a noble gas.'', answer = js '' Neon'',
       explanation = js ''Group 18. Argon too.''\<rparr>]"
    by (simp add: sample_quiz_def expected_item_def join_lines_def trim_def trimStart_def
        trimEnd_def isWhiteSpace_def js_def)
  with parseQuizResponse_prescribed_format [OF wf, of False] wf c show ?thesis
    by (simp add: list_all_iff)
qed

text \<open>
  C1 as it is written fails where the text of a line holds a marker: the question line
  \<open>What does FAQ: mean?\<close> is cut at \<open>Q:\<close>, and the item's question is \<open>mean?\<close>.
\<close>

theorem parseQuizResponse_marker_in_text_counterexample:
  "prescribed_block faq_block \<and>
   completion [faq_block] True = js ''Q: What does FAQ: mean?\<newline>A: x\<newline>E: y\<newline>'' \<and>
   parseQuizResponse (completion [faq_block] True) =
     [\<lparr>question = js ''mean?'', answer = js ''x'', explanation = js ''y''\<rparr>] \<and>
   parseQuizResponse (completion [faq_block] True) \<noteq> map expected_item [faq_block]"
  by (simp add: faq_block_def prescribed_block_def completion_def render_quiz_def render_block_def
      block_body_def text_line_def expected_item_def join_lines_def parseQuizResponse_def
      process_part_def part_lines_def match_marker_def isDigit_def trim_def trimStart_def
      trimEnd_def isWhiteSpace_def startsWith_def substring_def js_def newline_def)

text \<open>
  The other conditions on a block are needed as well: a block whose answer is empty gives
  no item, and in a block whose question line is blank the first continuation line of the
  answer is taken for the question.
\<close>

lemma parseQuizResponse_empty_answer_example:
  "parseQuizResponse (js ''Q: What is 2+2?\<newline>A:\<newline>E: Because.\<newline>'') = []"
  by (simp add: parseQuizResponse_def process_part_def part_lines_def match_marker_def
      isDigit_def trim_def trimStart_def trimEnd_def isWhiteSpace_def startsWith_def
      substring_def js_def newline_def)

lemma parseQuizResponse_blank_question_example:
  "parseQuizResponse (js ''Q:\<newline>A: four\<newline>or 4\<newline>E: Because.\<newline>'') =
     [\<lparr>question = js ''or 4'', answer = js ''four or 4'', explanation = js ''Because.''\<rparr>]"
  by (simp add: parseQuizResponse_def process_part_def part_lines_def match_marker_def
      isDigit_def trim_def trimStart_def trimEnd_def isWhiteSpace_def startsWith_def
      substring_def js_def newline_def)




section \<open>The prompt and the outcome of a quiz generation\<close>

lemma foldl_append_concat: "foldl (@) acc xs = acc @ concat xs"
  by (induction xs arbitrary: acc) simp_all

lemma includes_infix: "js_includes (x @ p @ y) p"
proof -
  have "length x \<in> set [0..<Suc (length (x @ p @ y))]" by simp
  moreover have "take (length p) (drop (length x) (x @ p @ y)) = p" by simp
  ultimately show ?thesis unfolding js_includes_def list_ex_iff by blast
qed

lemma startsWith_append: "startsWith (p @ r) p"
  by (simp add: startsWith_def)

lemma number_text_choices:
  "number_text 3 = js ''3''" "number_text 5 = js ''5''" "number_text 7 = js ''7''"
  "number_text 10 = js ''10''"
  by code_simp+

lemma build_prompt_first_sentence:
  "startsWith (build_prompt n d t)
     (js ''Generate exactly '' @ number_text n @ js '' '' @ difficulty_text d @
      js '' level quiz questions about '' @ [0x22] @ t @ [0x22] @ js ''.'')"
proof -
  have "js ''. \<newline>\<newline>For each question, provide:\<newline>1. The question\<newline>2. A clear, concise answer\<newline>3. A brief explanation (1-2 sentences)\<newline>\<newline>'' =
        js ''.'' @ js '' \<newline>\<newline>For each question, provide:\<newline>1. The question\<newline>2. A clear, concise answer\<newline>3. A brief explanation (1-2 sentences)\<newline>\<newline>''"
    by (simp add: js_def)
  then have "\<exists>r. build_prompt n d t =
      (js ''Generate exactly '' @ number_text n @ js '' '' @ difficulty_text d @
       js '' level quiz questions about '' @ [0x22] @ t @ [0x22] @ js ''.'') @ r"
    by (simp add: build_prompt_def)
  then obtain r where "build_prompt n d t =
      (js ''Generate exactly '' @ number_text n @ js '' '' @ difficulty_text d @
       js '' level quiz questions about '' @ [0x22] @ t @ [0x22] @ js ''.'') @ r" ..
  then show ?thesis by (simp only: startsWith_append)
qed

lemma build_prompt_includes: "js_includes (build_prompt n d t) format_instructions"
proof -
  have "\<exists>x y. build_prompt n d t = x @ format_instructions @ y"
    unfolding build_prompt_def by (metis append.assoc)
  then show ?thesis by (auto simp: includes_infix)
qed

text \<open>
  C5. The prompt passed to \<open>TextGeneration.generateStream\<close> is \<open>build_prompt\<close> of the
  question count, the difficulty and the topic of the state, and of nothing else (no call
  is made for a blank topic). It starts with the sentence
  \<open>Generate exactly <count> <difficulty> level quiz questions about "<topic>".\<close>, in
  which the counts 3, 5, 7 and 10 stand as \<open>3\<close>, \<open>5\<close>, \<open>7\<close> and \<open>10\<close> and the
  difficulties as \<open>easy\<close>, \<open>medium\<close> and \<open>hard\<close>, and it includes the instructions on
  the \<open>Q:\<close>, \<open>A:\<close>, \<open>E:\<close> format.
\<close>

theorem QuizTab_prompt:
  assumes "numQuestions s \<in> {3, 5, 7, 10}"
  shows "fst (snd (QuizTab_handleGenerate s outcome)) =
           (if trim (topic s) = [] then []
            else [TextGeneration_generateStream
                    (build_prompt (numQuestions s) (difficulty s) (topic s)) quiz_options]) \<and>
         startsWith (build_prompt (numQuestions s) (difficulty s) (topic s))
           (js ''Generate exactly '' @ number_text (numQuestions s) @ js '' '' @
            difficulty_text (difficulty s) @ js '' level quiz questions about '' @
            [0x22] @ topic s @ [0x22] @ js ''.'') \<and>
         number_text (numQuestions s) =
           (if numQuestions s = 3 then js ''3'' else if numQuestions s = 5 then js ''5''
            else if numQuestions s = 7 then js ''7'' else js ''10'') \<and>
         difficulty_text (difficulty s) =
           (case difficulty s of easy \<Rightarrow> js ''easy'' | medium \<Rightarrow> js ''medium'' | hard \<Rightarrow> js ''hard'') \<and>
         js_includes (build_prompt (numQuestions s) (difficulty s) (topic s)) format_instructions \<and>
         js_includes format_instructions
           (js ''Q: [question here]\<newline>A: [answer here]\<newline>E: [explanation here]'')"
proof (intro conjI)
  show "fst (snd (QuizTab_handleGenerate s outcome)) =
           (if trim (topic s) = [] then []
            else [TextGeneration_generateStream
                    (build_prompt (numQuestions s) (difficulty s) (topic s)) quiz_options])"
    by (simp add: QuizTab_handleGenerate_def Let_def split: prod.splits)
  show "number_text (numQuestions s) =
           (if numQuestions s = 3 then js ''3'' else if numQuestions s = 5 then js ''5''
            else if numQuestions s = 7 then js ''7'' else js ''10'')"
    using assms by (auto simp: number_text_choices)
  show "difficulty_text (difficulty s) =
           (case difficulty s of easy \<Rightarrow> js ''easy'' | medium \<Rightarrow> js ''medium'' | hard \<Rightarrow> js ''hard'')"
    by (cases "difficulty s") simp_all
  have "format_instructions =
      js ''Format each question like this:\<newline>'' @ js ''Q: [question here]\<newline>A: [answer here]\<newline>E: [explanation here]'' @ []"
    by (simp add: format_instructions_def js_def)
  then show "js_includes format_instructions (js ''Q: [question here]\<newline>A: [answer here]\<newline>E: [explanation here]'')"
    by (metis includes_infix)
qed (rule build_prompt_first_sentence build_prompt_includes)+

theorem QuizTab_prompt_witness:
  "numQuestions sample_quiz_state = 10 \<and> difficulty sample_quiz_state = medium \<and>
   fst (snd (QuizTab_handleGenerate sample_quiz_state ([], None))) =
     [TextGeneration_generateStream (build_prompt 10 medium (js ''Photosynthesis'')) quiz_options] \<and>
   number_text 10 = js ''10'' \<and> difficulty_text medium = js ''medium'' \<and>
   startsWith (build_prompt 10 medium (js ''Photosynthesis''))
     (js ''Generate exactly 10 medium level quiz questions about '' @ [0x22] @
      js ''Photosynthesis'' @ [0x22] @ js ''.'') \<and>
   build_prompt 3 hard (js ''Cells'') =
     js ''Generate exactly 3 hard level quiz questions about '' @ [0x22] @ js ''Cells'' @ [0x22] @
     js ''. \<newline>\<newline>For each question, provide:\<newline>1. The question\<newline>2. A clear, concise answer\<newline>3. A brief explanation (1-2 sentences)\<newline>\<newline>Format each question like this:\<newline>Q: [question here]\<newline>A: [answer here]\<newline>E: [explanation here]\<newline>\<newline>Keep questions educational and test understanding of key concepts.''"
proof -
  have t: "trim (topic sample_quiz_state) \<noteq> []"
    by (simp add: sample_quiz_state_def trim_def trimStart_def trimEnd_def isWhiteSpace_def js_def)
  have n: "numQuestions sample_quiz_state \<in> {3, 5, 7, 10}"
    by (simp add: sample_quiz_state_def)
  have v: "numQuestions sample_quiz_state = 10" "difficulty sample_quiz_state = medium"
    "topic sample_quiz_state = js ''Photosynthesis''"
    by (simp_all add: sample_quiz_state_def)
  have j: "js ''Generate exactly '' @ js ''10'' @ js '' '' @ js ''medium'' @
           js '' level quiz questions about '' @ x =
           js ''Generate exactly 10 medium level quiz questions about '' @ x" for x
    by (simp add: js_def)
  have k: "js ''Generate exactly '' @ js ''3'' @ js '' '' @ js ''hard'' @
           js '' level quiz questions about '' @ x =
           js ''Generate exactly 3 hard level quiz questions about '' @ x" for x
    by (simp add: js_def)
  have f: "js ''Format each question like this:\<newline>Q: [question here]\<newline>A: [answer here]\<newline>E: [explanation here]'' @ x =
           format_instructions @ x" for x
    by (simp only: format_instructions_def)
  have g: "js ''. \<newline>\<newline>For each question, provide:\<newline>1. The question\<newline>2. A clear, concise answer\<newline>3. A brief explanation (1-2 sentences)\<newline>\<newline>Format each question like this:\<newline>Q: [question here]\<newline>A: [answer here]\<newline>E: [explanation here]\<newline>\<newline>Keep questions educational and test understanding of key concepts.'' =
     js ''. \<newline>\<newline>For each question, provide:\<newline>1. The question\<newline>2. A clear, concise answer\<newline>3. A brief explanation (1-2 sentences)\<newline>\<newline>'' @
     js ''Format each question like this:\<newline>Q: [question here]\<newline>A: [answer here]\<newline>E: [explanation here]'' @
     js ''\<newline>\<newline>Keep questions educational and test understanding of key concepts.''"
    unfolding js_def map_append [symmetric] by (rule arg_cong [where f = "map of_char"]) simp
  have p: "build_prompt 3 hard (js ''Cells'') =
     js ''Generate exactly 3 hard level quiz questions about '' @ [0x22] @ js ''Cells'' @ [0x22] @
     js ''. \<newline>\<newline>For each question, provide:\<newline>1. The question\<newline>2. A clear, concise answer\<newline>3. A brief explanation (1-2 sentences)\<newline>\<newline>Format each question like this:\<newline>Q: [question here]\<newline>A: [answer here]\<newline>E: [explanation here]\<newline>\<newline>Keep questions educational and test understanding of key concepts.''"
    unfolding g build_prompt_def number_text_choices difficulty_text.simps
    by (simp only: k f)
  from QuizTab_prompt [OF n, of "([], None)"] t v p show ?thesis
    by (simp add: number_text_choices j)
qed

text \<open>
  C10. When the stream ends without an error and \<open>parseQuizResponse\<close> finds no item in
  the completion, the error message is \<open>Failed to parse quiz questions. Please try again.\<close>
  and the list of questions stays empty; when it finds items, they replace the list and
  no error is set.
\<close>

theorem QuizTab_parse_failure:
  assumes "trim (topic s) \<noteq> []"
  shows "(parseQuizResponse (concat tokens) = [] \<longrightarrow>
            fst (QuizTab_handleGenerate s (tokens, None)) =
              (QuizTab_started s)\<lparr>quiz_error := Some (js ''Failed to parse quiz questions. Please try again.''),
                quiz_isGenerating := False\<rparr> \<and>
            questions (fst (QuizTab_handleGenerate s (tokens, None))) = []) \<and>
         (parseQuizResponse (concat tokens) \<noteq> [] \<longrightarrow>
            fst (QuizTab_handleGenerate s (tokens, None)) =
              (QuizTab_started s)\<lparr>questions := parseQuizResponse (concat tokens),
                quiz_isGenerating := False\<rparr> \<and>
            quiz_error (fst (QuizTab_handleGenerate s (tokens, None))) = None)"
  using assms
  by (simp add: QuizTab_handleGenerate_def QuizTab_started_def Let_def foldl_append_concat)

theorem QuizTab_parse_failure_witness:
  "trim (topic sample_quiz_state) \<noteq> [] \<and>
   parseQuizResponse (concat [js ''I cannot '', js ''help.'']) = [] \<and>
   quiz_error (fst (QuizTab_handleGenerate sample_quiz_state ([js ''I cannot '', js ''help.''], None))) =
     Some (js ''Failed to parse quiz questions. Please try again.'') \<and>
   questions (fst (QuizTab_handleGenerate sample_quiz_state ([js ''I cannot '', js ''help.''], None))) = [] \<and>
   parseQuizResponse (concat [js ''Q: a\<newline>'', js ''A: b'']) \<noteq> [] \<and>
   questions (fst (QuizTab_handleGenerate sample_quiz_state ([js ''Q: a\<newline>'', js ''A: b''], None))) =
     [\<lparr>question = js ''a'', answer = js ''b'', explanation = []\<rparr>]"
proof -
  have t: "trim (topic sample_quiz_state) \<noteq> []"
    by (simp add: sample_quiz_state_def trim_def trimStart_def trimEnd_def isWhiteSpace_def js_def)
  have p: "parseQuizResponse (concat [js ''I cannot '', js ''help.'']) = []"
    by (simp add: parseQuizResponse_def process_part_def part_lines_def match_marker_def
        isDigit_def trim_def trimStart_def trimEnd_def isWhiteSpace_def startsWith_def
        substring_def js_def newline_def)
  have q: "parseQuizResponse (concat [js ''Q: a\<newline>'', js ''A: b'']) =
      [\<lparr>question = js ''a'', answer = js ''b'', explanation = []\<rparr>]"
    by (simp add: parseQuizResponse_def process_part_def part_lines_def match_marker_def
        isDigit_def trim_def trimStart_def trimEnd_def isWhiteSpace_def startsWith_def
        substring_def js_def newline_def)
  from QuizTab_parse_failure [OF t, of "[js ''I cannot '', js ''help.'']"]
    QuizTab_parse_failure [OF t, of "[js ''Q: a\<newline>'', js ''A: b'']"] t p q
  show ?thesis by (simp add: QuizTab_started_def)
qed

section \<open>Caught errors\<close>




section \<open>The statistics of the text-to-audio tab\<close>

text \<open>
  C7. When \<open>TTS.synthesize\<close> has given a result, it has been called exactly once, with the
  text of the state unchanged and the speed 1.0, and the statistics shown hold, as the
  duration, the quotient \<open>result.audioData.length / result.sampleRate\<close> by the division
  of JavaScript numbers, and the sample rate of the result.
\<close>

theorem TextToAudioTab_synthesis_stats:
  assumes "trim (tts_text s) \<noteq> []"
  shows "snd (TextToAudioTab_handleGenerate ops s t0 (Inr result) t1 playback) =
           [TTS_synthesize (tts_text s) 1.0] \<and>
         audioStats (fst (TextToAudioTab_handleGenerate ops s t0 (Inr result) t1 playback)) =
           Some \<lparr>duration =
                   num_divide ops (num_of_nat ops (length (result_audioData result)))
                     (result_sampleRate result),
                 generationTime = num_divide ops (num_minus ops t1 t0) (num_of_nat ops 1000),
                 sampleRate = result_sampleRate result\<rparr>"
  using assms
  by (simp add: TextToAudioTab_handleGenerate_def Let_def split: option.splits)

theorem TextToAudioTab_synthesis_stats_witness:
  "trim (tts_text sample_tts_state) \<noteq> [] \<and>
   snd (TextToAudioTab_handleGenerate exact_arith sample_tts_state 0 (Inr sample_result) 500 None) =
     [TTS_synthesize (js ''The cell'') 1.0] \<and>
   audioStats
     (fst (TextToAudioTab_handleGenerate exact_arith sample_tts_state 0 (Inr sample_result) 500 None)) =
     Some \<lparr>duration = 2, generationTime = 1 / 2, sampleRate = 2\<rparr>"
proof -
  have t: "trim (tts_text sample_tts_state) \<noteq> []"
    by (simp add: sample_tts_state_def trim_def trimStart_def trimEnd_def isWhiteSpace_def js_def)
  from TextToAudioTab_synthesis_stats [OF t, of exact_arith 0 sample_result 500 None] t
  show ?thesis by (simp add: sample_tts_state_def sample_result_def exact_arith_def)
qed

section \<open>The pipeline state of the voice tab\<close>

lemmas voice_handler_defs =
  models_ready_def effect_cleanup_def handleLoadModels_def startListening_def stopListening_def
  processTurn_def onSpeechActivity_def onTranscription_def onResponseToken_def
  onResponseComplete_def onSynthesisComplete_def processTurn_catch_def clearHistory_def call_def

lemma listening_entered:
  assumes "pipelineState (voice_step e s) = listening" "pipelineState s \<noteq> listening"
  shows "pipelineState s = idle \<and> allModelsReady s \<and> e = StartListening None"
proof (cases e)
  case (StartListening outcome)
  with assms show ?thesis
    by (cases outcome) (auto simp: voice_handler_defs Let_def split: if_splits)
next
  case (SpeechActivityEvent activity segment)
  with assms show ?thesis
    by (cases segment) (auto simp: voice_handler_defs Let_def split: if_splits)
next
  case (OnSynthesisComplete audio rate played)
  with assms show ?thesis
    by (cases played) (auto simp: voice_handler_defs Let_def split: if_splits)
next
  case (OnResponseComplete t result_read)
  with assms show ?thesis
    by (cases result_read) (auto simp: voice_handler_defs)
next
  case ModelsReady
  with assms show ?thesis by (auto simp: voice_handler_defs Let_def split: if_splits)
next
  case (HandleLoadModels outcome)
  with assms show ?thesis by (cases outcome) (auto simp: voice_handler_defs Let_def)
next
  case StopListening
  with assms show ?thesis by (auto simp: voice_handler_defs Let_def split: if_splits)
qed (use assms in \<open>auto simp: voice_handler_defs\<close>)

lemma nominal_turn:
  assumes "allModelsReady s" "pipelineState s = idle" "length samples > 1600"
  shows "states_along (turn_events samples t r userText audio rate) s =
         [listening, transcribing, thinking, speaking, idle]"
  using assms by (simp add: turn_events_def voice_handler_defs Let_def)

text \<open>
  C3, as amended. Every handler sets \<open>pipelineState\<close> to the state that goes with its
  event, whatever the state before: \<open>transcribing\<close> for the end of speech with a segment
  of more than 1600 samples (no change otherwise), \<open>thinking\<close> for \<open>onTranscription\<close>,
  \<open>speaking\<close> for \<open>onResponseComplete\<close> (when \<open>result\<close> is initialised as its updates are
  applied), \<open>idle\<close> for \<open>onSynthesisComplete\<close> once the playback has ended (no change
  when the playback rejects), \<open>idle\<close> for \<open>stopListening\<close> and for a caught error of the
  pipeline; the other events leave it as it is. Only \<open>startListening\<close> looks at the
  state: it sets \<open>listening\<close> from \<open>idle\<close> with all models ready (\<open>idle\<close> again when
  starting fails) and does nothing otherwise, so \<open>listening\<close> is entered from \<open>idle\<close>
  alone. So when the events of one turn come in their order, from \<open>idle\<close> with the models
  ready, the state goes through \<open>listening\<close>, \<open>transcribing\<close>, \<open>thinking\<close>, \<open>speaking\<close>,
  \<open>idle\<close>.
\<close>

theorem pipelineState_follows_events:
  "pipelineState (voice_step (StartListening outcome) s) =
     (if allModelsReady s \<and> pipelineState s = idle
      then (case outcome of None \<Rightarrow> listening | Some err \<Rightarrow> idle)
      else pipelineState s) \<and>
   pipelineState (voice_step StopListening s) = idle \<and>
   pipelineState (voice_step (SpeechActivityEvent activity segment) s) =
     (if activity = Ended \<and> long_segment segment then transcribing else pipelineState s) \<and>
   pipelineState (voice_step (OnTranscription t) s) = thinking \<and>
   pipelineState (voice_step (OnResponseComplete r (Initialised userText)) s) = speaking \<and>
   pipelineState (voice_step (OnSynthesisComplete audio rate played) s) =
     (if audioPlaybackRef s \<and> played \<noteq> None then pipelineState s else idle) \<and>
   pipelineState (voice_step (TurnRejected thrown_value) s) = idle \<and>
   pipelineState (voice_step ModelsReady s) = pipelineState s \<and>
   pipelineState (voice_step (HandleLoadModels loaded) s) = pipelineState s \<and>
   pipelineState (voice_step (OnResponseToken token accumulated) s) = pipelineState s \<and>
   pipelineState (voice_step (OnStateChange st) s) = pipelineState s \<and>
   pipelineState (voice_step ClearHistory s) = pipelineState s \<and>
   (pipelineState (voice_step e s) = listening \<and> pipelineState s \<noteq> listening \<longrightarrow>
      pipelineState s = idle \<and> allModelsReady s \<and> e = StartListening None) \<and>
   (allModelsReady s \<and> pipelineState s = idle \<and> length samples > 1600 \<longrightarrow>
      states_along (turn_events samples t r userText audio rate) s =
        [listening, transcribing, thinking, speaking, idle])"
proof (intro conjI)
  show "pipelineState (voice_step (StartListening outcome) s) =
     (if allModelsReady s \<and> pipelineState s = idle
      then (case outcome of None \<Rightarrow> listening | Some err \<Rightarrow> idle)
      else pipelineState s)"
    by (cases outcome) (simp_all add: startListening_def call_def Let_def)
  show "pipelineState (voice_step StopListening s) = idle"
    by (simp add: stopListening_def call_def Let_def)
  show "pipelineState (voice_step (SpeechActivityEvent activity segment) s) =
     (if activity = Ended \<and> long_segment segment then transcribing else pipelineState s)"
    by (cases segment)
      (simp_all add: onSpeechActivity_def processTurn_def call_def long_segment_def Let_def)
  show "pipelineState (voice_step (OnTranscription t) s) = thinking"
    by (simp add: onTranscription_def)
  show "pipelineState (voice_step (OnResponseComplete r (Initialised userText)) s) = speaking"
    by (simp add: onResponseComplete_def)
  show "pipelineState (voice_step (OnSynthesisComplete audio rate played) s) =
     (if audioPlaybackRef s \<and> played \<noteq> None then pipelineState s else idle)"
    by (cases played) (simp_all add: onSynthesisComplete_def call_def Let_def)
  show "pipelineState (voice_step (TurnRejected thrown_value) s) = idle"
    by (simp add: processTurn_catch_def)
  show "pipelineState (voice_step ModelsReady s) = pipelineState s"
    by (simp add: models_ready_def effect_cleanup_def call_def Let_def)
  show "pipelineState (voice_step (HandleLoadModels loaded) s) = pipelineState s"
    by (cases loaded) (simp_all add: handleLoadModels_def Let_def)
  show "pipelineState (voice_step (OnResponseToken token accumulated) s) = pipelineState s"
    by (simp add: onResponseToken_def)
  show "pipelineState (voice_step (OnStateChange st) s) = pipelineState s"
    by simp
  show "pipelineState (voice_step ClearHistory s) = pipelineState s"
    by (simp add: clearHistory_def)
  show "pipelineState (voice_step e s) = listening \<and> pipelineState s \<noteq> listening \<longrightarrow>
      pipelineState s = idle \<and> allModelsReady s \<and> e = StartListening None"
    using listening_entered [of e s] by blast
  show "allModelsReady s \<and> pipelineState s = idle \<and> length samples > 1600 \<longrightarrow>
      states_along (turn_events samples t r userText audio rate) s =
        [listening, transcribing, thinking, speaking, idle]"
    using nominal_turn [of s samples t r userText audio rate] by blast
qed

theorem pipelineState_follows_events_witness:
  "allModelsReady (voice_step ModelsReady (initial_voice_state :: real voice_state)) \<and>
   pipelineState (voice_step ModelsReady (initial_voice_state :: real voice_state)) = idle \<and>
   length (replicate 1601 (0 :: real)) > 1600 \<and>
   pipelineState (voice_step (StartListening None)
     (voice_step ModelsReady (initial_voice_state :: real voice_state))) = listening \<and>
   states_along
     (turn_events (replicate 1601 0) (js ''what is an atom'') (js ''The smallest unit.'')
        (js ''what is an atom'') [0, 0] 22050)
     (voice_step ModelsReady (initial_voice_state :: real voice_state)) =
     [listening, transcribing, thinking, speaking, idle]"
proof -
  let ?s = "voice_step ModelsReady (initial_voice_state :: real voice_state)"
  have a: "allModelsReady ?s" "pipelineState ?s = idle"
    by (simp_all add: initial_voice_state_def models_ready_def effect_cleanup_def Let_def)
  have l: "length (replicate 1601 (0 :: real)) > 1600" by simp
  note th = pipelineState_follows_events [of None ?s Ended "Some (replicate 1601 0)"
      "js ''what is an atom''" "js ''The smallest unit.''" "js ''what is an atom''" "[0, 0]" 22050
      None "ErrorInstance []" None "[]" "[]" "[]" "StartListening None" "replicate 1601 0"]
  from th have "pipelineState (voice_step (StartListening None) ?s) =
     (if allModelsReady ?s \<and> pipelineState ?s = idle
      then (case None :: thrown option of None \<Rightarrow> listening | Some err \<Rightarrow> idle)
      else pipelineState ?s)"
    by (rule conjunct1)
  with a have b: "pipelineState (voice_step (StartListening None) ?s) = listening"
    by simp
  from th have "allModelsReady ?s \<and> pipelineState ?s = idle \<and>
      length (replicate 1601 (0 :: real)) > 1600 \<longrightarrow>
      states_along
        (turn_events (replicate 1601 0) (js ''what is an atom'') (js ''The smallest unit.'')
           (js ''what is an atom'') [0, 0] 22050) ?s =
        [listening, transcribing, thinking, speaking, idle]"
    by blast
  with a l b show ?thesis by blast
qed

text \<open>
  C3 as it is written fails within a turn: the microphone and the subscription to the
  voice activity detector are held while the answer is being made, and an utterance that
  ends then takes the state from \<open>thinking\<close> back to \<open>transcribing\<close>.
\<close>

theorem pipelineState_second_utterance_counterexample:
  "pipelineState (voice_run turn_start initial_voice_state) = thinking \<and>
   audioCaptureRef (voice_run turn_start initial_voice_state) \<and>
   vadUnsubRef (voice_run turn_start initial_voice_state) \<and>
   pipelineState (voice_step second_utterance (voice_run turn_start initial_voice_state)) =
     transcribing \<and>
   \<not> turn_order thinking transcribing"
  by (simp add: turn_start_def second_utterance_def voice_run_def initial_voice_state_def
      voice_handler_defs Let_def turn_order_def)

section \<open>The turn of the voice tab\<close>

lemma pipeline_created_step:
  "(allModelsReady s \<longrightarrow> pipelineRef s) \<Longrightarrow>
   allModelsReady (voice_step e s) \<longrightarrow> pipelineRef (voice_step e s)"
  by (cases e) (auto simp: voice_handler_defs Let_def split: option.splits binding.splits)

lemma pipeline_created_run:
  "(allModelsReady s \<longrightarrow> pipelineRef s) \<Longrightarrow>
   allModelsReady (voice_run es s) \<longrightarrow> pipelineRef (voice_run es s)"
  unfolding voice_run_def
proof (induction es arbitrary: s)
  case Nil
  then show ?case by simp
next
  case (Cons e es)
  show ?case
  proof (cases "unmounted s")
    case True
    with Cons.IH [OF Cons.prems] show ?thesis by simp
  next
    case False
    with Cons.IH [OF pipeline_created_step [OF Cons.prems, of e]] show ?thesis by simp
  qed
qed

text \<open>
  C6, as amended. For each detected speech segment of more than 1600 samples, while the
  pipeline object exists (it exists in every state the component reaches with all models
  ready, which \<open>startListening\<close> requires), the callback makes exactly one call
  \<open>VoicePipeline.processTurn\<close>, with the samples of the segment unchanged and the options
  \<open>maxTokens = 150\<close>, \<open>temperature = 0.7\<close> and the study-assistant system prompt. The
  component does no transcription, generation or synthesis of its own: the transcript
  and the response are the texts the callbacks are given, and the callbacks call nothing
  but the playback of the synthesised audio.
\<close>

theorem voice_turn_delegated:
  assumes "pipelineRef s" and "length samples > 1600"
  shows "calls (voice_step (SpeechActivityEvent Ended (Some samples)) s) =
           calls s @
           [VAD_popSpeechSegment,
            VoicePipeline_processTurn samples
              \<lparr>maxTokens = 150, temperature = 0.7,
               systemPrompt = js ''You are a helpful study assistant. Answer questions clearly and concisely. Focus on being educational and accurate. Keep responses brief and to the point.''\<rparr>] \<and>
         calls (processTurn samples s) = calls s @ [VoicePipeline_processTurn samples turn_options] \<and>
         voice_step (OnTranscription t) s = s\<lparr>transcript := t, pipelineState := thinking\<rparr> \<and>
         voice_step (OnResponseToken token accumulated) s = s\<lparr>response := accumulated\<rparr> \<and>
         calls (voice_step (OnResponseComplete r userText) s) = calls s \<and>
         calls (voice_step (OnSynthesisComplete audio rate played) s) =
           calls s @ (if audioPlaybackRef s then [AudioPlayback_play audio rate] else []) \<and>
         (allModelsReady (voice_run es (initial_voice_state :: 'a voice_state)) \<longrightarrow>
            pipelineRef (voice_run es (initial_voice_state :: 'a voice_state)))"
proof -
  have "allModelsReady (voice_run es (initial_voice_state :: 'a voice_state)) \<longrightarrow>
        pipelineRef (voice_run es (initial_voice_state :: 'a voice_state))"
    by (rule pipeline_created_run) (simp add: initial_voice_state_def)
  with assms show ?thesis
    by (simp add: voice_handler_defs turn_options_def Let_def split: option.splits binding.splits)
qed

theorem voice_turn_delegated_witness:
  "pipelineRef (voice_run [ModelsReady, StartListening None] (initial_voice_state :: real voice_state)) \<and>
   length (replicate 1601 (0 :: real)) > 1600 \<and>
   calls (voice_run [ModelsReady, StartListening None,
                     SpeechActivityEvent Ended (Some (replicate 1601 0))]
            (initial_voice_state :: real voice_state)) =
     [AudioCapture_new 16000, VAD_reset, VAD_onSpeechActivity, AudioCapture_start,
      VAD_popSpeechSegment, VoicePipeline_processTurn (replicate 1601 0) turn_options]"
proof -
  let ?s = "voice_run [ModelsReady, StartListening None] (initial_voice_state :: real voice_state)"
  have a: "pipelineRef ?s"
    "calls ?s = [AudioCapture_new 16000, VAD_reset, VAD_onSpeechActivity, AudioCapture_start]"
    by (simp_all add: voice_run_def initial_voice_state_def voice_handler_defs Let_def)
  have l: "length (replicate 1601 (0 :: real)) > 1600" by simp
  have "\<not> unmounted ?s"
    by (simp add: voice_run_def initial_voice_state_def voice_handler_defs Let_def)
  then have r: "voice_run [ModelsReady, StartListening None,
                      SpeechActivityEvent Ended (Some (replicate 1601 0))]
             (initial_voice_state :: real voice_state) =
           voice_step (SpeechActivityEvent Ended (Some (replicate 1601 0))) ?s"
    by (simp add: voice_run_def initial_voice_state_def)
  from voice_turn_delegated [OF a(1) l, THEN conjunct1] a l show ?thesis
    unfolding r by (simp add: turn_options_def)
qed

text \<open>
  C6 as it is written fails for a detected segment of 1600 samples: it is popped and
  dropped, and no call to the pipeline is made.
\<close>

theorem short_segment_counterexample:
  "pipelineRef (voice_run [ModelsReady, StartListening None] (initial_voice_state :: real voice_state)) \<and>
   length (replicate 1600 (0 :: real)) = 1600 \<and>
   calls (voice_run [ModelsReady, StartListening None,
                     SpeechActivityEvent Ended (Some (replicate 1600 0))]
            (initial_voice_state :: real voice_state)) =
     [AudioCapture_new 16000, VAD_reset, VAD_onSpeechActivity, AudioCapture_start,
      VAD_popSpeechSegment]"
  by (simp add: voice_run_def initial_voice_state_def voice_handler_defs Let_def)

text \<open>
  C8. The callback starts a turn (sets \<open>transcribing\<close> and calls the pipeline) exactly
  when the activity is \<open>Ended\<close> and the popped segment has more than 1600 samples; for
  any other activity, a shorter segment or none, nothing changes but the record of the
  \<open>popSpeechSegment\<close> call, so a \<open>listening\<close> state stays \<open>listening\<close>. The microphone is
  opened at 16000 samples per second, at which 1600 samples are a tenth of a second.
\<close>

theorem voice_turn_guard:
  "(activity = Ended \<and> segment = Some samples \<and> 1600 < length samples \<longrightarrow>
      pipelineState (voice_step (SpeechActivityEvent activity segment) s) = transcribing \<and>
      (pipelineRef s \<longrightarrow>
         calls (voice_step (SpeechActivityEvent activity segment) s) =
           calls s @ [VAD_popSpeechSegment, VoicePipeline_processTurn samples turn_options])) \<and>
   (\<not> (activity = Ended \<and> long_segment segment) \<longrightarrow>
      voice_step (SpeechActivityEvent activity segment) s =
        (if activity = Ended then call VAD_popSpeechSegment s else s) \<and>
      pipelineState (voice_step (SpeechActivityEvent activity segment) s) = pipelineState s) \<and>
   (long_segment segment \<longleftrightarrow> (\<exists>xs. segment = Some xs \<and> 1600 < length xs)) \<and>
   (allModelsReady s \<and> pipelineState s = idle \<longrightarrow>
      calls (voice_step (StartListening None) s) =
        calls s @ [AudioCapture_new 16000, VAD_reset, VAD_onSpeechActivity, AudioCapture_start]) \<and>
   (1600 :: real) / 16000 = 0.1"
  by (cases segment) (auto simp: voice_handler_defs long_segment_def Let_def)

theorem voice_turn_guard_witness:
  "long_segment (Some (replicate 1601 (0 :: real))) \<and>
   pipelineState (voice_step (SpeechActivityEvent Ended (Some (replicate 1601 0)))
     (voice_run [ModelsReady, StartListening None] (initial_voice_state :: real voice_state))) =
     transcribing \<and>
   \<not> long_segment (Some (replicate 1600 (0 :: real))) \<and>
   pipelineState (voice_step (SpeechActivityEvent Ended (Some (replicate 1600 0)))
     (voice_run [ModelsReady, StartListening None] (initial_voice_state :: real voice_state))) =
     listening \<and>
   pipelineState (voice_step (SpeechActivityEvent Ended None)
     (voice_run [ModelsReady, StartListening None] (initial_voice_state :: real voice_state))) =
     listening"
proof -
  let ?s = "voice_run [ModelsReady, StartListening None] (initial_voice_state :: real voice_state)"
  have a: "pipelineState ?s = listening" "pipelineRef ?s"
    by (simp_all add: voice_run_def initial_voice_state_def voice_handler_defs Let_def)
  have l: "long_segment (Some (replicate 1601 (0 :: real)))"
    "\<not> long_segment (Some (replicate 1600 (0 :: real)))" "\<not> long_segment (None :: real list option)"
    by (simp_all add: long_segment_def)
  from voice_turn_guard [of Ended "Some (replicate 1601 0)" "replicate 1601 0" ?s]
    voice_turn_guard [of Ended "Some (replicate 1600 0)" "replicate 1600 0" ?s]
    voice_turn_guard [of Ended None "[]" ?s] a l
  show ?thesis by (simp add: call_def)
qed

section \<open>The conversation history\<close>

lemma alternating_append_pair:
  "alternating h \<Longrightarrow> msg_role m = user \<Longrightarrow> msg_role n = assistant \<Longrightarrow> alternating (h @ [m, n])"
  by (induction h rule: alternating.induct) simp_all

lemma alternating_even: "alternating h \<Longrightarrow> even (length h)"
  by (induction h rule: alternating.induct) simp_all

lemma alternating_nth:
  "alternating h \<Longrightarrow> i < length h \<Longrightarrow> msg_role (h ! i) = (if even i then user else assistant)"
proof (induction h arbitrary: i rule: alternating.induct)
  case 1
  then show ?case by simp
next
  case (2 m)
  then show ?case by simp
next
  case (3 m n ms)
  show ?case
  proof (cases i)
    case 0
    with 3 show ?thesis by simp
  next
    case (Suc j)
    show ?thesis
    proof (cases j)
      case 0
      with Suc 3 show ?thesis by simp
    next
      case (Suc k)
      with \<open>i = Suc j\<close> 3 show ?thesis by simp
    qed
  qed
qed

lemma conversationHistory_step:
  "conversationHistory (voice_step e s) =
     (case e of
        OnResponseComplete t (Initialised userText) \<Rightarrow>
          conversationHistory s @
            [\<lparr>msg_role = user, msg_text = userText\<rparr>, \<lparr>msg_role = assistant, msg_text = t\<rparr>]
      | ClearHistory \<Rightarrow> []
      | _ \<Rightarrow> conversationHistory s)"
  by (cases e) (simp_all add: voice_handler_defs Let_def split: option.splits binding.splits)

lemma alternating_step:
  "alternating (conversationHistory s) \<Longrightarrow> alternating (conversationHistory (voice_step e s))"
  unfolding conversationHistory_step
  by (cases e) (simp_all add: alternating_append_pair split: binding.splits)

lemma alternating_run:
  "alternating (conversationHistory s) \<Longrightarrow> alternating (conversationHistory (voice_run es s))"
  unfolding voice_run_def by (induction es arbitrary: s) (simp_all add: alternating_step)

text \<open>
  What holds of the history in every state the component reaches: the length is even
  and the roles alternate, \<open>user\<close> first. The two updates as they are written keep that:
  a pair is appended when \<open>result\<close> is initialised as the update is applied, and
  \<open>clearHistory\<close> empties the list.
\<close>

lemma conversationHistory_alternates:
  "alternating (conversationHistory (voice_run es initial_voice_state)) \<and>
   even (length (conversationHistory (voice_run es initial_voice_state))) \<and>
   (i < length (conversationHistory (voice_run es initial_voice_state)) \<longrightarrow>
      msg_role (conversationHistory (voice_run es initial_voice_state) ! i) =
        (if even i then user else assistant))"
proof -
  have "alternating (conversationHistory (voice_run es (initial_voice_state :: 'a voice_state)))"
    by (rule alternating_run) (simp add: initial_voice_state_def)
  then show ?thesis
    by (simp add: alternating_even alternating_nth)
qed

text \<open>
  C9. The code does not append a pair for every completed turn. The update that appends
  the pair reads \<open>result.transcription\<close>, and \<open>result\<close> is the \<open>const\<close> that the awaited
  \<open>processTurn\<close> call initialises only when it resolves, after \<open>onResponseComplete\<close> has
  run. When React applies the update before that, it throws: at the end of the run below
  the response is complete, the history is still empty, the state is still \<open>thinking\<close>,
  and the component has been removed.
\<close>

theorem conversationHistory_update_throws:
  "pipelineState (voice_run turn_start initial_voice_state) = thinking \<and>
   \<not> unmounted (voice_run turn_start initial_voice_state) \<and>
   voice_run (turn_start @ [OnResponseComplete (js ''The smallest unit of an element.'') Uninitialised])
     initial_voice_state =
     (voice_run turn_start initial_voice_state)\<lparr>unmounted := True\<rparr> \<and>
   conversationHistory
     (voice_run (turn_start @ [OnResponseComplete (js ''The smallest unit of an element.'') Uninitialised])
        initial_voice_state) = [] \<and>
   pipelineState
     (voice_run (turn_start @ [OnResponseComplete (js ''The smallest unit of an element.'') Uninitialised])
        initial_voice_state) = thinking \<and>
   conversationHistory (voice_run turn_spoken initial_voice_state) =
     [\<lparr>msg_role = user, msg_text = js ''what is an atom''\<rparr>,
      \<lparr>msg_role = assistant, msg_text = js ''The smallest unit of an element.''\<rparr>]"
  by (simp add: turn_spoken_def turn_start_def voice_run_def initial_voice_state_def
      voice_handler_defs Let_def)

end
